theory Spec2Isabelle
  imports Complex_Main "HOL-Library.AList"
begin

section \<open>Domain model (domain/models.py)\<close>

text \<open>
  Exceptions are values: every \<^verbatim>\<open>raise\<close> of the modelled code is the left
  injection of a sum type. Python integers are \<^typ>\<open>int\<close>, Python floats (utility values,
  wall-clock readings) are \<^typ>\<open>real\<close>: the modelled code only adds, subtracts and
  compares them, and the model does so exactly (no rounding, no NaN, no infinities).
  A \<^verbatim>\<open>dict\<close> is an association list in insertion order; \<^const>\<open>map_of\<close> is
  \<^verbatim>\<open>dict.get\<close> and \<^const>\<open>AList.update\<close> is item assignment (an existing key keeps
  its position, a new key goes to the end). The keys of a Python dict are distinct, so
  a comprehension over \<^verbatim>\<open>d.items()\<close> is a map over the list.
\<close>

datatype error = ValueError | TypeError | KeyError | IndexError | AttributeError | RuntimeError

datatype party = AGENT | HUMAN

record issue =
  name :: string
  display_name :: string
  quantity :: int
  divisible :: bool

text \<open>\<^verbatim>\<open>Issue.__post_init__\<close>: a quantity below 1 raises.\<close>

definition Issue_init :: "string \<Rightarrow> string \<Rightarrow> int \<Rightarrow> bool \<Rightarrow> error + issue" where
  "Issue_init n d q dv =
     (if q < 1 then Inl ValueError
      else Inr \<lparr>name = n, display_name = d, quantity = q, divisible = dv\<rparr>)"

record allocation =
  agent :: int
  middle :: int
  human :: int

text \<open>\<^verbatim>\<open>Allocation.__post_init__\<close>: a negative count raises.\<close>

definition Allocation_init :: "int \<Rightarrow> int \<Rightarrow> int \<Rightarrow> error + allocation" where
  "Allocation_init a m h =
     (if a < 0 \<or> m < 0 \<or> h < 0 then Inl ValueError
      else Inr \<lparr>agent = a, middle = m, human = h\<rparr>)"

text \<open>The property \<^verbatim>\<open>Allocation.total\<close>.\<close>

definition alloc_total :: "allocation \<Rightarrow> int" where
  "alloc_total al = agent al + middle al + human al"

definition alloc_is_complete :: "allocation \<Rightarrow> bool" where
  "alloc_is_complete al = (middle al = 0)"

definition to_tuple :: "allocation \<Rightarrow> int list" where
  "to_tuple al = [agent al, middle al, human al]"

text \<open>
  \<^verbatim>\<open>Allocation.from_tuple\<close> reads \<^verbatim>\<open>t[0]\<close>, \<^verbatim>\<open>t[1]\<close>, \<^verbatim>\<open>t[2]\<close>: a sequence
  shorter than three raises IndexError, further elements are ignored.
\<close>

fun from_tuple :: "int list \<Rightarrow> error + allocation" where
  "from_tuple (a # m # h # rest) = Allocation_init a m h"
| "from_tuple t = Inl IndexError"

definition all_to_agent :: "int \<Rightarrow> error + allocation" where
  "all_to_agent q = Allocation_init q 0 0"

definition all_to_human :: "int \<Rightarrow> error + allocation" where
  "all_to_human q = Allocation_init 0 0 q"

definition all_in_middle :: "int \<Rightarrow> error + allocation" where
  "all_in_middle q = Allocation_init 0 q 0"

text \<open>\<^verbatim>\<open>//\<close> is floor division, as \<^const>\<open>divide\<close> on \<^typ>\<open>int\<close> is.\<close>

definition split_even :: "int \<Rightarrow> error + allocation" where
  "split_even q =
     (let each = q div 2; remainder = q - each * 2
      in Allocation_init each remainder each)"

text \<open>
  An offer maps issue names to optional allocations. A key bound to \<^verbatim>\<open>None\<close>
  (\<^term>\<open>(k, None)\<close> in the list) differs from a missing key only for
  \<^verbatim>\<open>is_complete\<close>; \<^verbatim>\<open>offer[k]\<close> answers \<^verbatim>\<open>None\<close> for both.
\<close>

datatype offer = Offer (allocations: "(string \<times> allocation option) list")

definition offer_get :: "offer \<Rightarrow> string \<Rightarrow> allocation option" where
  "offer_get ofr k = (case map_of (allocations ofr) k of None \<Rightarrow> None | Some v \<Rightarrow> v)"

definition offer_set :: "offer \<Rightarrow> string \<Rightarrow> allocation option \<Rightarrow> offer" where
  "offer_set ofr k v = Offer (AList.update k v (allocations ofr))"

definition is_complete :: "offer \<Rightarrow> bool" where
  "is_complete ofr =
     (if allocations ofr = [] then False
      else list_all (\<lambda>v. case v of None \<Rightarrow> False | Some al \<Rightarrow> alloc_is_complete al)
             (map snd (allocations ofr)))"

definition is_partial :: "offer \<Rightarrow> bool" where
  "is_partial ofr = (\<not> is_complete ofr)"

text \<open>
  \<^verbatim>\<open>Offer.copy\<close> rebuilds every allocation through the constructor, so a negative
  count would raise there; the field test \<^verbatim>\<open>if alloc\<close> is true for every allocation
  object.
\<close>

fun copy_items :: "(string \<times> allocation option) list \<Rightarrow> error + (string \<times> allocation option) list" where
  "copy_items [] = Inr []"
| "copy_items ((k, None) # rest) =
     (case copy_items rest of Inl e \<Rightarrow> Inl e | Inr r \<Rightarrow> Inr ((k, None) # r))"
| "copy_items ((k, Some al) # rest) =
     (case Allocation_init (agent al) (middle al) (human al) of
        Inl e \<Rightarrow> Inl e
      | Inr al' \<Rightarrow> (case copy_items rest of Inl e \<Rightarrow> Inl e | Inr r \<Rightarrow> Inr ((k, Some al') # r)))"

definition offer_copy :: "offer \<Rightarrow> error + offer" where
  "offer_copy ofr = (case copy_items (allocations ofr) of Inl e \<Rightarrow> Inl e | Inr r \<Rightarrow> Inr (Offer r))"

record utility_function =
  party :: party
  uvalues :: "(string \<times> real) list"

text \<open>\<^verbatim>\<open>values.get(k, 0)\<close>.\<close>

definition value_of :: "utility_function \<Rightarrow> string \<Rightarrow> real" where
  "value_of u k = (case map_of (uvalues u) k of None \<Rightarrow> 0 | Some v \<Rightarrow> v)"

record protocol_rules =
  deadline_seconds :: "int option"
  allow_partial_agreements :: bool
  require_formal_accept :: bool
  time_tick_interval_ms :: int

record gamespec =
  game_name :: string
  description :: string
  issues :: "issue list"
  agent_utility :: utility_function
  human_utility :: utility_function
  rules :: protocol_rules
  issue_singular_names :: "(string \<times> string) list"
  issue_plural_names :: "(string \<times> string) list"

fun get_issue_in :: "issue list \<Rightarrow> string \<Rightarrow> issue option" where
  "get_issue_in [] k = None"
| "get_issue_in (i # rest) k = (if name i = k then Some i else get_issue_in rest k)"

definition get_issue :: "gamespec \<Rightarrow> string \<Rightarrow> issue option" where
  "get_issue g k = get_issue_in (issues g) k"

text \<open>
  \<^verbatim>\<open>GameSpec.validate_offer\<close> returns a flag and a message. The message is an
  f-string over the issue name, the allocation's total and the expected quantity; the
  model keeps those three values.
\<close>

datatype message = No_message | Items_mismatch string int int

fun validate_issues :: "issue list \<Rightarrow> offer \<Rightarrow> bool \<times> message" where
  "validate_issues [] ofr = (True, No_message)"
| "validate_issues (i # rest) ofr =
     (case offer_get ofr (name i) of
        None \<Rightarrow> validate_issues rest ofr
      | Some al \<Rightarrow>
          if alloc_total al \<noteq> quantity i then (False, Items_mismatch (name i) (alloc_total al) (quantity i))
          else validate_issues rest ofr)"

definition validate_offer :: "gamespec \<Rightarrow> offer \<Rightarrow> bool \<times> message" where
  "validate_offer g ofr = validate_issues (issues g) ofr"

section \<open>The classic resource game (domain/games/multi\_issue.py)\<close>

definition classic_issues :: "issue list" where
  "classic_issues =
     [\<lparr>name = ''apples'', display_name = ''Apples'', quantity = 4, divisible = False\<rparr>,
      \<lparr>name = ''oranges'', display_name = ''Oranges'', quantity = 3, divisible = False\<rparr>,
      \<lparr>name = ''bananas'', display_name = ''Bananas'', quantity = 2, divisible = False\<rparr>]"

definition classic_agent_utility :: utility_function where
  "classic_agent_utility =
     \<lparr>party = AGENT, uvalues = [(''apples'', 10), (''oranges'', 6), (''bananas'', 2)]\<rparr>"

definition classic_human_utility :: utility_function where
  "classic_human_utility =
     \<lparr>party = HUMAN, uvalues = [(''apples'', 2), (''oranges'', 6), (''bananas'', 10)]\<rparr>"

definition classic_resource_game :: gamespec where
  "classic_resource_game =
     \<lparr>game_name = ''classic_resource'',
      description = ''Divide fruits between two parties.'',
      issues = classic_issues,
      agent_utility = classic_agent_utility,
      human_utility = classic_human_utility,
      rules = \<lparr>deadline_seconds = Some 300, allow_partial_agreements = True,
               require_formal_accept = True, time_tick_interval_ms = 5000\<rparr>,
      issue_singular_names = [(''apples'', ''apple''), (''oranges'', ''orange''), (''bananas'', ''banana'')],
      issue_plural_names = [(''apples'', ''Apples''), (''oranges'', ''Oranges''), (''bananas'', ''Bananas'')]\<rparr>"

section \<open>Events (core/events.py)\<close>

datatype event_type =
  SEND_MESSAGE | SEND_OFFER | SEND_EXPRESSION | OFFER_IN_PROGRESS
| TIME | FORMAL_ACCEPT | GAME_START | GAME_END

fun event_type_value :: "event_type \<Rightarrow> string" where
  "event_type_value SEND_MESSAGE = ''send_message''"
| "event_type_value SEND_OFFER = ''send_offer''"
| "event_type_value SEND_EXPRESSION = ''send_expression''"
| "event_type_value OFFER_IN_PROGRESS = ''offer_in_progress''"
| "event_type_value TIME = ''time''"
| "event_type_value FORMAL_ACCEPT = ''formal_accept''"
| "event_type_value GAME_START = ''game_start''"
| "event_type_value GAME_END = ''game_end''"

datatype message_subtype =
  GENERIC | OFFER_PROPOSE | OFFER_ACCEPT | OFFER_REJECT
| PREF_INFO | PREF_REQUEST | PREF_SPECIFIC_REQUEST | PREF_WITHHOLD
| TIMING_REQUEST | TIMING_INFO
| GREETING | FAREWELL | THANKS | APOLOGY | THREAT | PROMISE
| CONFIRMATION | CLARIFICATION

fun message_subtype_value :: "message_subtype \<Rightarrow> string" where
  "message_subtype_value GENERIC = ''generic''"
| "message_subtype_value OFFER_PROPOSE = ''offer_propose''"
| "message_subtype_value OFFER_ACCEPT = ''offer_accept''"
| "message_subtype_value OFFER_REJECT = ''offer_reject''"
| "message_subtype_value PREF_INFO = ''pref_info''"
| "message_subtype_value PREF_REQUEST = ''pref_request''"
| "message_subtype_value PREF_SPECIFIC_REQUEST = ''pref_specific_request''"
| "message_subtype_value PREF_WITHHOLD = ''pref_withhold''"
| "message_subtype_value TIMING_REQUEST = ''timing_request''"
| "message_subtype_value TIMING_INFO = ''timing_info''"
| "message_subtype_value GREETING = ''greeting''"
| "message_subtype_value FAREWELL = ''farewell''"
| "message_subtype_value THANKS = ''thanks''"
| "message_subtype_value APOLOGY = ''apology''"
| "message_subtype_value THREAT = ''threat''"
| "message_subtype_value PROMISE = ''promise''"
| "message_subtype_value CONFIRMATION = ''confirmation''"
| "message_subtype_value CLARIFICATION = ''clarification''"

text \<open>
  The values a payload or a serialised event holds: \<^verbatim>\<open>None\<close>, booleans, integers,
  floats, strings, sequences (list or tuple) and string-keyed dicts.
\<close>

datatype pyval =
  PNone | PBool bool | PInt int | PFloat real | PStr string
| PList "pyval list" | PDict "(string \<times> pyval) list"

text \<open>Python's truth value of an object, as \<^verbatim>\<open>if x:\<close> tests it.\<close>

fun truthy :: "pyval \<Rightarrow> bool" where
  "truthy PNone = False"
| "truthy (PBool b) = b"
| "truthy (PInt i) = (i \<noteq> 0)"
| "truthy (PFloat r) = (r \<noteq> 0)"
| "truthy (PStr s) = (s \<noteq> [])"
| "truthy (PList xs) = (xs \<noteq> [])"
| "truthy (PDict kvs) = (kvs \<noteq> [])"

text \<open>
  Calling the enum class on a value, \<^verbatim>\<open>EventType(v)\<close>: the member with that value,
  ValueError when there is none (in particular for a value that is not a string).
\<close>

definition all_event_types :: "event_type list" where
  "all_event_types =
     [SEND_MESSAGE, SEND_OFFER, SEND_EXPRESSION, OFFER_IN_PROGRESS,
      TIME, FORMAL_ACCEPT, GAME_START, GAME_END]"

definition all_message_subtypes :: "message_subtype list" where
  "all_message_subtypes =
     [GENERIC, OFFER_PROPOSE, OFFER_ACCEPT, OFFER_REJECT,
      PREF_INFO, PREF_REQUEST, PREF_SPECIFIC_REQUEST, PREF_WITHHOLD,
      TIMING_REQUEST, TIMING_INFO,
      GREETING, FAREWELL, THANKS, APOLOGY, THREAT, PROMISE,
      CONFIRMATION, CLARIFICATION]"

fun EventType :: "pyval \<Rightarrow> error + event_type" where
  "EventType (PStr s) =
     (case find (\<lambda>t. event_type_value t = s) all_event_types of
        None \<Rightarrow> Inl ValueError | Some t \<Rightarrow> Inr t)"
| "EventType v = Inl ValueError"

fun MessageSubtype :: "pyval \<Rightarrow> error + message_subtype" where
  "MessageSubtype (PStr s) =
     (case find (\<lambda>t. message_subtype_value t = s) all_message_subtypes of
        None \<Rightarrow> Inl ValueError | Some t \<Rightarrow> Inr t)"
| "MessageSubtype v = Inl ValueError"

definition HUMAN_ID :: string where "HUMAN_ID = ''human''"
definition AGENT_ID :: string where "AGENT_ID = ''agent''"
definition SYSTEM_ID :: string where "SYSTEM_ID = ''system''"

text \<open>
  The dataclass \<^verbatim>\<open>Event\<close>, with the fields typed as annotated. The generated
  \<^verbatim>\<open>event_id\<close> (a uuid prefix) and \<^verbatim>\<open>timestamp\<close> (the wall clock) are inputs of
  whoever builds an event.
\<close>

record event =
  event_type :: event_type
  sender_id :: string
  payload :: "(string \<times> pyval) list"
  delay_ms :: int
  event_id :: string
  timestamp :: real
  subtype :: "message_subtype option"

definition send_offer :: "string \<Rightarrow> real \<Rightarrow> string \<Rightarrow> pyval \<Rightarrow> int \<Rightarrow> event" where
  "send_offer eid ts sender offer_dict delay =
     \<lparr>event_type = SEND_OFFER, sender_id = sender, payload = [(''offer'', offer_dict)],
      delay_ms = delay, event_id = eid, timestamp = ts, subtype = None\<rparr>"

definition formal_accept :: "string \<Rightarrow> real \<Rightarrow> string \<Rightarrow> int \<Rightarrow> event" where
  "formal_accept eid ts sender delay =
     \<lparr>event_type = FORMAL_ACCEPT, sender_id = sender, payload = [],
      delay_ms = delay, event_id = eid, timestamp = ts, subtype = None\<rparr>"

definition game_start :: "string \<Rightarrow> real \<Rightarrow> string \<Rightarrow> int \<Rightarrow> event" where
  "game_start eid ts gname game_index =
     \<lparr>event_type = GAME_START, sender_id = SYSTEM_ID,
      payload = [(''game_name'', PStr gname), (''game_index'', PInt game_index)],
      delay_ms = 0, event_id = eid, timestamp = ts, subtype = None\<rparr>"

text \<open>\<^verbatim>\<open>Event.time_tick\<close>: the key \<^verbatim>\<open>remaining_seconds\<close> is set only when given.\<close>

definition time_tick :: "string \<Rightarrow> real \<Rightarrow> real \<Rightarrow> real option \<Rightarrow> event" where
  "time_tick eid ts elapsed remaining =
     \<lparr>event_type = TIME, sender_id = SYSTEM_ID,
      payload = (''elapsed_seconds'', PFloat elapsed) #
                (case remaining of None \<Rightarrow> [] | Some r \<Rightarrow> [(''remaining_seconds'', PFloat r)]),
      delay_ms = 0, event_id = eid, timestamp = ts, subtype = None\<rparr>"

text \<open>\<^verbatim>\<open>Event.game_end\<close>: the key \<^verbatim>\<open>final_offer\<close> is set only for a true value.\<close>

definition game_end :: "string \<Rightarrow> real \<Rightarrow> string \<Rightarrow> pyval option \<Rightarrow> event" where
  "game_end eid ts reason final_offer_dict =
     \<lparr>event_type = GAME_END, sender_id = SYSTEM_ID,
      payload = (''reason'', PStr reason) #
                (case final_offer_dict of
                   None \<Rightarrow> []
                 | Some d \<Rightarrow> if truthy d then [(''final_offer'', d)] else []),
      delay_ms = 0, event_id = eid, timestamp = ts, subtype = None\<rparr>"

definition get_offer :: "event \<Rightarrow> pyval option" where
  "get_offer e = (if event_type e = SEND_OFFER then map_of (payload e) ''offer'' else None)"

text \<open>
  \<^verbatim>\<open>Event.to_dict\<close>. An enum member is a true value, so \<^verbatim>\<open>self.subtype.value if
  self.subtype else None\<close> tests for \<^verbatim>\<open>None\<close> only.
\<close>

definition to_dict :: "event \<Rightarrow> (string \<times> pyval) list" where
  "to_dict e =
     [(''event_id'', PStr (event_id e)),
      (''event_type'', PStr (event_type_value (event_type e))),
      (''sender_id'', PStr (sender_id e)),
      (''timestamp'', PFloat (timestamp e)),
      (''payload'', PDict (payload e)),
      (''subtype'', case subtype e of None \<Rightarrow> PNone | Some st \<Rightarrow> PStr (message_subtype_value st)),
      (''delay_ms'', PInt (delay_ms e))]"

text \<open>
  \<^verbatim>\<open>Event.from_dict\<close>. \<^verbatim>\<open>data[k]\<close> raises KeyError for a missing key,
  \<^verbatim>\<open>data.get(k, d)\<close> does not. The arguments are evaluated in the order written.
  Python stores whatever object the dict holds; the record is typed, so a value of
  another type than the field's annotation is answered by TypeError here, a branch that
  no dict made by \<^const>\<open>to_dict\<close> reaches.
\<close>

definition subscript :: "(string \<times> pyval) list \<Rightarrow> string \<Rightarrow> error + pyval" where
  "subscript d k = (case map_of d k of None \<Rightarrow> Inl KeyError | Some v \<Rightarrow> Inr v)"

definition as_str :: "pyval \<Rightarrow> error + string" where
  "as_str v = (case v of PStr s \<Rightarrow> Inr s | _ \<Rightarrow> Inl TypeError)"

definition as_float :: "pyval \<Rightarrow> error + real" where
  "as_float v = (case v of PFloat r \<Rightarrow> Inr r | _ \<Rightarrow> Inl TypeError)"

definition as_int :: "pyval \<Rightarrow> error + int" where
  "as_int v = (case v of PInt i \<Rightarrow> Inr i | _ \<Rightarrow> Inl TypeError)"

definition as_dict :: "pyval \<Rightarrow> error + (string \<times> pyval) list" where
  "as_dict v = (case v of PDict d \<Rightarrow> Inr d | _ \<Rightarrow> Inl TypeError)"

definition bind_err :: "error + 'a \<Rightarrow> ('a \<Rightarrow> error + 'b) \<Rightarrow> error + 'b" where
  "bind_err r f = (case r of Inl e \<Rightarrow> Inl e | Inr x \<Rightarrow> f x)"

definition from_dict :: "(string \<times> pyval) list \<Rightarrow> error + event" where
  "from_dict data =
     bind_err (bind_err (subscript data ''event_id'') as_str) (\<lambda>eid.
     bind_err (bind_err (subscript data ''event_type'') EventType) (\<lambda>ty.
     bind_err (bind_err (subscript data ''sender_id'') as_str) (\<lambda>sender.
     bind_err (bind_err (subscript data ''timestamp'') as_float) (\<lambda>ts.
     bind_err (case map_of data ''payload'' of None \<Rightarrow> Inr [] | Some v \<Rightarrow> as_dict v) (\<lambda>pl.
     bind_err (case map_of data ''subtype'' of
                 None \<Rightarrow> Inr None
               | Some v \<Rightarrow> if truthy v then bind_err (MessageSubtype v) (\<lambda>st. Inr (Some st))
                           else Inr None) (\<lambda>st.
     bind_err (case map_of data ''delay_ms'' of None \<Rightarrow> Inr 0 | Some v \<Rightarrow> as_int v) (\<lambda>dl.
     Inr \<lparr>event_type = ty, sender_id = sender, payload = pl, delay_ms = dl,
          event_id = eid, timestamp = ts, subtype = st\<rparr>)))))))"

section \<open>The negotiation session (core/session.py)\<close>

text \<open>
  \<^verbatim>\<open>Offer.from_dict\<close>. A false value (\<^verbatim>\<open>None\<close>, an empty sequence) gives an
  unset issue; any other value goes through \<^verbatim>\<open>tuple(val)\<close> and
  \<^verbatim>\<open>Allocation.from_tuple\<close>. \<^verbatim>\<open>data.items()\<close> exists on a dict only
  (AttributeError otherwise). A value that is not a sequence of integers is outside the
  annotation \<^verbatim>\<open>tuple[int, int, int]\<close> and answered by TypeError.
\<close>

fun as_ints :: "pyval list \<Rightarrow> error + int list" where
  "as_ints [] = Inr []"
| "as_ints (PInt i # rest) = (case as_ints rest of Inl e \<Rightarrow> Inl e | Inr r \<Rightarrow> Inr (i # r))"
| "as_ints (v # rest) = Inl TypeError"

definition allocation_of_val :: "pyval \<Rightarrow> error + allocation option" where
  "allocation_of_val val =
     (if truthy val then
        (case val of
           PList xs \<Rightarrow> bind_err (bind_err (as_ints xs) from_tuple) (\<lambda>al. Inr (Some al))
         | _ \<Rightarrow> Inl TypeError)
      else Inr None)"

fun offer_items_from :: "(string \<times> pyval) list \<Rightarrow> error + (string \<times> allocation option) list" where
  "offer_items_from [] = Inr []"
| "offer_items_from ((k, val) # rest) =
     bind_err (allocation_of_val val) (\<lambda>al.
     bind_err (offer_items_from rest) (\<lambda>r. Inr ((k, al) # r)))"

definition Offer_from_dict :: "pyval \<Rightarrow> error + offer" where
  "Offer_from_dict data =
     (case data of
        PDict items \<Rightarrow> bind_err (offer_items_from items) (\<lambda>r. Inr (Offer r))
      | _ \<Rightarrow> Inl AttributeError)"

definition Offer_to_dict :: "offer \<Rightarrow> pyval" where
  "Offer_to_dict ofr =
     PDict (map (\<lambda>(k, v). (k, case v of None \<Rightarrow> PNone
                                | Some al \<Rightarrow> PList (map PInt (to_tuple al))))
              (allocations ofr))"

datatype session_state = NOT_STARTED | IN_PROGRESS | COMPLETED | TIMED_OUT | CANCELLED

record formal_acceptance =
  human_accepted :: bool
  agent_accepted :: bool
  human_accepted_at :: "real option"
  agent_accepted_at :: "real option"

definition FormalAcceptance :: formal_acceptance where
  "FormalAcceptance =
     \<lparr>human_accepted = False, agent_accepted = False,
      human_accepted_at = None, agent_accepted_at = None\<rparr>"

definition reset :: "formal_acceptance \<Rightarrow> formal_acceptance" where
  "reset acc =
     acc\<lparr>human_accepted := False, agent_accepted := False,
         human_accepted_at := None, agent_accepted_at := None\<rparr>"

definition both_accepted :: "formal_acceptance \<Rightarrow> bool" where
  "both_accepted acc = (human_accepted acc \<and> agent_accepted acc)"

text \<open>
  The state of a \<^verbatim>\<open>NegotiationSession\<close>; the private fields carry their names
  without the leading underscore, \<^verbatim>\<open>_history.events\<close> is \<open>history\<close>.
\<close>

record session =
  game :: gamespec
  session_id :: string
  state :: session_state
  current_offer :: offer
  acceptance :: formal_acceptance
  history :: "event list"
  start_time :: "real option"
  end_time :: "real option"
  last_human_offer :: "offer option"
  last_agent_offer :: "offer option"

text \<open>
  \<^verbatim>\<open>Offer.all_in_middle\<close> is a dict comprehension over the issue list: a name that
  occurs twice keeps its first position and its last value.
\<close>

fun Offer_all_in_middle :: "issue list \<Rightarrow> (string \<times> allocation option) list
    \<Rightarrow> error + (string \<times> allocation option) list" where
  "Offer_all_in_middle [] acc = Inr acc"
| "Offer_all_in_middle (i # rest) acc =
     bind_err (all_in_middle (quantity i)) (\<lambda>al.
       Offer_all_in_middle rest (AList.update (name i) (Some al) acc))"

definition create_initial_offer :: "gamespec \<Rightarrow> error + offer" where
  "create_initial_offer g = bind_err (Offer_all_in_middle (issues g) []) (\<lambda>r. Inr (Offer r))"

text \<open>The constructor; the caller supplies the session id.\<close>

definition NegotiationSession :: "gamespec \<Rightarrow> string \<Rightarrow> error + session" where
  "NegotiationSession g sid =
     bind_err (create_initial_offer g) (\<lambda>ofr.
       Inr \<lparr>game = g, session_id = sid, state = NOT_STARTED, current_offer = ofr,
            acceptance = FormalAcceptance, history = [],
            start_time = None, end_time = None,
            last_human_offer = None, last_agent_offer = None\<rparr>)"

definition is_active :: "session \<Rightarrow> bool" where
  "is_active s = (state s = IN_PROGRESS)"

text \<open>
  \<^verbatim>\<open>start\<close>: \<open>now\<close> is the reading of the clock, \<open>eid\<close> the id given to the
  GAME\_START event, whose timestamp is read from the same clock.
\<close>

definition start :: "real \<Rightarrow> string \<Rightarrow> session \<Rightarrow> error + (session \<times> event)" where
  "start now eid s =
     (if state s \<noteq> NOT_STARTED then Inl RuntimeError
      else let ev = game_start eid now (game_name (game s)) 0
           in Inr (s\<lparr>state := IN_PROGRESS, start_time := Some now,
                     history := history s @ [ev]\<rparr>, ev))"

definition complete_negotiation :: "real \<Rightarrow> pyval \<Rightarrow> session \<Rightarrow> session" where
  "complete_negotiation now reason s =
     (if reason = PStr ''timeout'' then s\<lparr>state := TIMED_OUT, end_time := Some now\<rparr>
      else if reason = PStr ''cancelled'' then s\<lparr>state := CANCELLED, end_time := Some now\<rparr>
      else s\<lparr>state := COMPLETED, end_time := Some now\<rparr>)"

text \<open>
  The handlers return the session as they leave it and the exception that escapes, if
  any. The two \<^verbatim>\<open>print\<close> calls (invalid offer, incomplete offer) write to the
  console and touch no field; they are not modelled.
\<close>

definition handle_offer :: "session \<Rightarrow> event \<Rightarrow> error option \<times> session" where
  "handle_offer s e =
     (case get_offer e of
        None \<Rightarrow> (None, s)
      | Some offer_dict \<Rightarrow>
          if truthy offer_dict then
            (case Offer_from_dict offer_dict of
               Inl err \<Rightarrow> (Some err, s)
             | Inr ofr \<Rightarrow>
                 if \<not> fst (validate_offer (game s) ofr) then (None, s)
                 else
                   let s1 = s\<lparr>current_offer := ofr\<rparr>;
                       s2 = (if sender_id e = HUMAN_ID then s1\<lparr>last_human_offer := Some ofr\<rparr>
                             else s1\<lparr>last_agent_offer := Some ofr\<rparr>)
                   in (None, s2\<lparr>acceptance := reset (acceptance s2)\<rparr>))
          else (None, s))"

definition handle_formal_accept :: "real \<Rightarrow> session \<Rightarrow> event \<Rightarrow> error option \<times> session" where
  "handle_formal_accept now s e =
     (if \<not> is_complete (current_offer s) then (None, s)
      else
        let s1 = (if sender_id e = HUMAN_ID
                  then s\<lparr>acceptance := (acceptance s)\<lparr>human_accepted := True,
                           human_accepted_at := Some (timestamp e)\<rparr>\<rparr>
                  else s\<lparr>acceptance := (acceptance s)\<lparr>agent_accepted := True,
                           agent_accepted_at := Some (timestamp e)\<rparr>\<rparr>)
        in if both_accepted (acceptance s1)
           then (None, complete_negotiation now (PStr ''mutual_agreement'') s1)
           else (None, s1))"

definition handle_game_end :: "real \<Rightarrow> session \<Rightarrow> event \<Rightarrow> error option \<times> session" where
  "handle_game_end now s e =
     (let reason = (case map_of (payload e) ''reason'' of None \<Rightarrow> PStr ''unknown'' | Some v \<Rightarrow> v)
      in (None, complete_negotiation now reason s))"

definition apply_event :: "real \<Rightarrow> session \<Rightarrow> event \<Rightarrow> error option \<times> session" where
  "apply_event now s e =
     (if \<not> is_active s \<and> event_type e \<notin> {GAME_START, TIME} then (None, s)
      else
        let s1 = s\<lparr>history := history s @ [e]\<rparr>
        in if event_type e = SEND_OFFER then handle_offer s1 e
           else if event_type e = FORMAL_ACCEPT then handle_formal_accept now s1 e
           else if event_type e = GAME_END then handle_game_end now s1 e
           else (None, s1))"

definition can_formally_accept :: "session \<Rightarrow> bool" where
  "can_formally_accept s = (is_active s \<and> is_complete (current_offer s))"

text \<open>
  The sessions a run can produce: built by the constructor, started, and fed events
  (an exception that escapes \<^verbatim>\<open>apply_event\<close> is caught by the bus, and the session
  lives on as the handler left it).
\<close>

inductive reachable :: "session \<Rightarrow> bool" where
  reach_init: "NegotiationSession g sid = Inr s \<Longrightarrow> reachable s"
| reach_start: "reachable s \<Longrightarrow> start now eid s = Inr (s', ev) \<Longrightarrow> reachable s'"
| reach_event: "reachable s \<Longrightarrow> reachable (snd (apply_event now s e))"

text \<open>Feeding a list of events, each with the clock reading at its arrival.\<close>

fun run :: "session \<Rightarrow> (real \<times> event) list \<Rightarrow> session" where
  "run s [] = s"
| "run s ((now, e) # rest) = run (snd (apply_event now s e)) rest"

text \<open>How often a run enters the state COMPLETED.\<close>

fun completions :: "session \<Rightarrow> (real \<times> event) list \<Rightarrow> nat" where
  "completions s [] = 0"
| "completions s ((now, e) # rest) =
     (let s' = snd (apply_event now s e)
      in (if state s \<noteq> COMPLETED \<and> state s' = COMPLETED then 1 else 0) + completions s' rest)"

text \<open>A partial offer of the classic game: apples divided three to one, oranges unset.\<close>

definition apples_only :: offer where
  "apples_only = Offer [(''apples'', Some \<lparr>agent = 3, middle = 0, human = 1\<rparr>), (''oranges'', None)]"

section \<open>Concrete sessions of the classic game\<close>

definition fresh_session :: session where
  "fresh_session =
     \<lparr>game = classic_resource_game, session_id = ''demo'', state = NOT_STARTED,
      current_offer = Offer [(''apples'', Some \<lparr>agent = 0, middle = 4, human = 0\<rparr>),
                             (''oranges'', Some \<lparr>agent = 0, middle = 3, human = 0\<rparr>),
                             (''bananas'', Some \<lparr>agent = 0, middle = 2, human = 0\<rparr>)],
      acceptance = FormalAcceptance, history = [],
      start_time = None, end_time = None,
      last_human_offer = None, last_agent_offer = None\<rparr>"

definition live_session :: session where
  "live_session =
     fresh_session\<lparr>state := IN_PROGRESS, start_time := Some 0,
       history := [game_start ''e0'' 0 ''classic_resource'' 0]\<rparr>"

definition full_dict :: pyval where
  "full_dict =
     PDict [(''apples'', PList [PInt 4, PInt 0, PInt 0]),
            (''oranges'', PList [PInt 2, PInt 0, PInt 1]),
            (''bananas'', PList [PInt 0, PInt 0, PInt 2])]"

definition full_offer :: offer where
  "full_offer =
     Offer [(''apples'', Some \<lparr>agent = 4, middle = 0, human = 0\<rparr>),
            (''oranges'', Some \<lparr>agent = 2, middle = 0, human = 1\<rparr>),
            (''bananas'', Some \<lparr>agent = 0, middle = 0, human = 2\<rparr>)]"

definition offer_event :: event where
  "offer_event = send_offer ''e1'' 1 AGENT_ID full_dict 0"

definition human_accept_event :: event where
  "human_accept_event = formal_accept ''e2'' 2 HUMAN_ID 0"

definition agent_accept_event :: event where
  "agent_accept_event = formal_accept ''e3'' 3 AGENT_ID 0"

definition agreement_events :: "(real \<times> event) list" where
  "agreement_events = [(1, offer_event), (2, human_accept_event), (3, agent_accept_event)]"

definition offered_session :: session where
  "offered_session =
     live_session\<lparr>history := history live_session @ [offer_event],
       current_offer := full_offer, last_agent_offer := Some full_offer,
       acceptance := FormalAcceptance\<rparr>"

definition half_accepted_session :: session where
  "half_accepted_session =
     offered_session\<lparr>history := history offered_session @ [human_accept_event],
       acceptance := FormalAcceptance\<lparr>human_accepted := True, human_accepted_at := Some 2\<rparr>\<rparr>"

definition agreed_session :: session where
  "agreed_session =
     half_accepted_session\<lparr>history := history half_accepted_session @ [agent_accept_event],
       acceptance := \<lparr>human_accepted = True, agent_accepted = True,
                       human_accepted_at = Some 2, agent_accepted_at = Some 3\<rparr>,
       state := COMPLETED, end_time := Some 3\<rparr>"

definition bad_dict :: pyval where
  "bad_dict = PDict [(''apples'', PList [PInt 1, PInt 0, PInt 0])]"

definition bad_offer :: offer where
  "bad_offer = Offer [(''apples'', Some \<lparr>agent = 1, middle = 0, human = 0\<rparr>)]"

definition bad_offer_event :: event where
  "bad_offer_event = send_offer ''e9'' 5 HUMAN_ID bad_dict 0"

definition empty_game :: gamespec where
  "empty_game =
     classic_resource_game\<lparr>game_name := ''empty'', issues := [],
       agent_utility := \<lparr>party = AGENT, uvalues = []\<rparr>,
       human_utility := \<lparr>party = HUMAN, uvalues = []\<rparr>,
       issue_singular_names := [], issue_plural_names := []\<rparr>"

definition empty_fresh_session :: session where
  "empty_fresh_session =
     \<lparr>game = empty_game, session_id = ''void'', state = NOT_STARTED,
      current_offer = Offer [],
      acceptance = FormalAcceptance, history = [],
      start_time = None, end_time = None,
      last_human_offer = None, last_agent_offer = None\<rparr>"

definition empty_live_session :: session where
  "empty_live_session =
     empty_fresh_session\<lparr>state := IN_PROGRESS, start_time := Some 0,
       history := [game_start ''e0'' 0 ''empty'' 0]\<rparr>"

definition counter_dict :: pyval where
  "counter_dict =
     PDict [(''apples'', PList [PInt 3, PInt 0, PInt 1]),
            (''bananas'', PList [PInt 0, PInt 1, PInt 1])]"

definition counter_offer :: offer where
  "counter_offer =
     Offer [(''apples'', Some \<lparr>agent = 3, middle = 0, human = 1\<rparr>),
            (''bananas'', Some \<lparr>agent = 0, middle = 1, human = 1\<rparr>)]"

definition counter_event :: event where
  "counter_event = send_offer ''e5'' 6 AGENT_ID counter_dict 0"

section \<open>The NegoChat core (agents/negochat/negochat\_core.py)\<close>

datatype stack_strategy = AGGRESSIVE | BALANCED | COOPERATIVE

record issue_analysis =
  issue_name :: string
  agent_value :: real
  opponent_value :: real
  analysis_quantity :: int

definition value_difference :: "issue_analysis \<Rightarrow> real" where
  "value_difference a = agent_value a - opponent_value a"

record negotiation_stacks =
  stack_a :: "string list"
  stack_b :: "string list"
  neutral :: "string list"
  a_index :: int
  b_index :: int

definition NegotiationStacks :: negotiation_stacks where
  "NegotiationStacks = \<lparr>stack_a = [], stack_b = [], neutral = [], a_index = 0, b_index = 0\<rparr>"

text \<open>
  \<^verbatim>\<open>list.sort(key=..., reverse=...)\<close> is stable in both directions: with
  \<^verbatim>\<open>reverse=True\<close> elements of equal key keep their order, which is a stable
  ascending sort of the reversed list, reversed.
\<close>

definition sort_by :: "('a \<Rightarrow> real) \<Rightarrow> bool \<Rightarrow> 'a list \<Rightarrow> 'a list" where
  "sort_by key reverse xs = (if reverse then rev (sort_key key (rev xs)) else sort_key key xs)"

definition analyse :: "utility_function \<Rightarrow> utility_function \<Rightarrow> issue \<Rightarrow> issue_analysis" where
  "analyse au ou i =
     \<lparr>issue_name = name i, agent_value = value_of au (name i),
      opponent_value = value_of ou (name i), analysis_quantity = quantity i\<rparr>"

fun distribute :: "issue_analysis list \<Rightarrow> negotiation_stacks \<Rightarrow> negotiation_stacks" where
  "distribute [] st = st"
| "distribute (a # rest) st =
     distribute rest
       (if value_difference a > 0 then st\<lparr>stack_a := stack_a st @ [issue_name a]\<rparr>
        else if value_difference a < 0 then st\<lparr>stack_b := stack_b st @ [issue_name a]\<rparr>
        else st\<lparr>neutral := neutral st @ [issue_name a]\<rparr>)"

text \<open>
  \<^verbatim>\<open>_build_stacks\<close> reads the game, the two utility functions and the strategy of
  the core.
\<close>

definition build_stacks ::
  "gamespec \<Rightarrow> utility_function \<Rightarrow> utility_function \<Rightarrow> stack_strategy \<Rightarrow> negotiation_stacks" where
  "build_stacks g au ou strat =
     (let analyses = sort_by value_difference True (map (analyse au ou) (issues g));
          st = distribute analyses NegotiationStacks
      in if strat = AGGRESSIVE then
           st\<lparr>stack_a := sort_by (value_of au) True (stack_a st),
              stack_b := sort_by (value_of au) True (stack_b st)\<rparr>
         else if strat = COOPERATIVE then
           st\<lparr>stack_b := sort_by (value_of ou) False (stack_b st)\<rparr>
         else st)"

text \<open>
  The state of a \<^verbatim>\<open>NegoChatCore\<close>. The fields \<^verbatim>\<open>game\<close> and
  \<^verbatim>\<open>agent_utility\<close> carry the prefix \<open>core\<close>, the private fields lose their
  underscore.
\<close>

record negochat_core =
  core_game :: gamespec
  core_agent_utility :: utility_function
  opponent_utility :: utility_function
  strategy :: stack_strategy
  min_acceptable_utility :: real
  concession_rate :: real
  stacks :: negotiation_stacks
  current_proposal :: "offer option"
  last_opponent_offer :: "offer option"
  concession_count :: int
  offers_made :: int

definition NegoChatCore ::
  "gamespec \<Rightarrow> utility_function \<Rightarrow> utility_function \<Rightarrow> stack_strategy \<Rightarrow> real \<Rightarrow> real
     \<Rightarrow> negochat_core" where
  "NegoChatCore g au ou strat mau cr =
     \<lparr>core_game = g, core_agent_utility = au, opponent_utility = ou, strategy = strat,
      min_acceptable_utility = mau, concession_rate = cr,
      stacks = build_stacks g au ou strat,
      current_proposal = None, last_opponent_offer = None,
      concession_count = 0, offers_made = 0\<rparr>"

text \<open>The loop of \<^verbatim>\<open>get_opening_offer\<close> over the issues of the game.\<close>

fun opening_allocations ::
  "negotiation_stacks \<Rightarrow> stack_strategy \<Rightarrow> issue list \<Rightarrow> offer \<Rightarrow> error + offer" where
  "opening_allocations st strat [] ofr = Inr ofr"
| "opening_allocations st strat (i # rest) ofr =
     bind_err
       (if name i \<in> set (stack_a st) then all_to_agent (quantity i)
        else if name i \<in> set (stack_b st) then
          (if strat = COOPERATIVE then all_to_human (quantity i) else split_even (quantity i))
        else split_even (quantity i))
       (\<lambda>al. opening_allocations st strat rest (offer_set ofr (name i) (Some al)))"

definition get_opening_offer :: "negochat_core \<Rightarrow> error + (offer \<times> negochat_core)" where
  "get_opening_offer c =
     bind_err (opening_allocations (stacks c) (strategy c) (issues (core_game c)) (Offer []))
       (\<lambda>ofr. Inr (ofr, c\<lparr>current_proposal := Some ofr, offers_made := offers_made c + 1\<rparr>))"

text \<open>
  The three loops of \<^verbatim>\<open>_make_concession\<close>. Each stops at the first issue where it
  builds a new allocation (\<^verbatim>\<open>break\<close>); the outcome is the changed offer, or
  \<^verbatim>\<open>None\<close> when the loop ends with \<^verbatim>\<open>made_change\<close> still false. The loop over
  \<^verbatim>\<open>stack_b\<close> has the branch for undecided units, the loops over \<^verbatim>\<open>neutral\<close>
  and over the reversed \<^verbatim>\<open>stack_a\<close> (the same body twice) do not.
\<close>

fun concede_stack_b :: "gamespec \<Rightarrow> string list \<Rightarrow> offer \<Rightarrow> error + offer option" where
  "concede_stack_b g [] ofr = Inr None"
| "concede_stack_b g (n # rest) ofr =
     (case get_issue g n of
        None \<Rightarrow> concede_stack_b g rest ofr
      | Some i \<Rightarrow>
          (case offer_get ofr n of
             None \<Rightarrow> concede_stack_b g rest ofr
           | Some current \<Rightarrow>
               if agent current > 0 then
                 bind_err (Allocation_init (agent current - 1) (middle current) (human current + 1))
                   (\<lambda>al. Inr (Some (offer_set ofr n (Some al))))
               else if middle current > 0 then
                 bind_err (Allocation_init (agent current) (middle current - 1) (human current + 1))
                   (\<lambda>al. Inr (Some (offer_set ofr n (Some al))))
               else concede_stack_b g rest ofr))"

fun concede_own_unit :: "gamespec \<Rightarrow> string list \<Rightarrow> offer \<Rightarrow> error + offer option" where
  "concede_own_unit g [] ofr = Inr None"
| "concede_own_unit g (n # rest) ofr =
     (case get_issue g n of
        None \<Rightarrow> concede_own_unit g rest ofr
      | Some i \<Rightarrow>
          (case offer_get ofr n of
             None \<Rightarrow> concede_own_unit g rest ofr
           | Some current \<Rightarrow>
               if agent current > 0 then
                 bind_err (Allocation_init (agent current - 1) (middle current) (human current + 1))
                   (\<lambda>al. Inr (Some (offer_set ofr n (Some al))))
               else concede_own_unit g rest ofr))"

definition conceded :: "negochat_core \<Rightarrow> offer \<Rightarrow> offer option \<times> negochat_core" where
  "conceded c ofr =
     (Some ofr, c\<lparr>current_proposal := Some ofr,
                  concession_count := concession_count c + 1,
                  offers_made := offers_made c + 1\<rparr>)"

definition make_concession :: "negochat_core \<Rightarrow> error + (offer option \<times> negochat_core)" where
  "make_concession c =
     (case current_proposal c of
        None \<Rightarrow> bind_err (get_opening_offer c) (\<lambda>(ofr, c'). Inr (Some ofr, c'))
      | Some p \<Rightarrow>
          bind_err (offer_copy p) (\<lambda>ofr.
          bind_err (concede_stack_b (core_game c) (stack_b (stacks c)) ofr) (\<lambda>r1.
            case r1 of
              Some ofr1 \<Rightarrow> Inr (conceded c ofr1)
            | None \<Rightarrow>
                bind_err (concede_own_unit (core_game c) (neutral (stacks c)) ofr) (\<lambda>r2.
                  case r2 of
                    Some ofr2 \<Rightarrow> Inr (conceded c ofr2)
                  | None \<Rightarrow>
                      bind_err (concede_own_unit (core_game c) (rev (stack_a (stacks c))) ofr) (\<lambda>r3.
                        case r3 of
                          Some ofr3 \<Rightarrow> Inr (conceded c ofr3)
                        | None \<Rightarrow> Inr (None, c))))))"

definition classic_core :: negochat_core where
  "classic_core =
     NegoChatCore classic_resource_game classic_agent_utility classic_human_utility BALANCED
       (4 / 10) (1 / 10)"

definition classic_opening :: offer where
  "classic_opening =
     Offer [(''apples'', Some \<lparr>agent = 4, middle = 0, human = 0\<rparr>),
            (''oranges'', Some \<lparr>agent = 1, middle = 1, human = 1\<rparr>),
            (''bananas'', Some \<lparr>agent = 1, middle = 0, human = 1\<rparr>)]"

text \<open>Every allocation of the offer has the counts its constructor accepts.\<close>

definition wf_offer :: "offer \<Rightarrow> bool" where
  "wf_offer ofr =
     list_all (\<lambda>(k, v). case v of None \<Rightarrow> True
                 | Some al \<Rightarrow> 0 \<le> agent al \<and> 0 \<le> middle al \<and> 0 \<le> human al)
       (allocations ofr)"

text \<open>
  The entries the three loops of \<^verbatim>\<open>_make_concession\<close> visit, in their order: the
  list \<open>stack_b\<close> (flag true: the loop that may give an undecided unit of an issue of
  which this party holds none), the list \<open>neutral\<close>, the list \<open>stack_a\<close> reversed. The
  order is that of the lists as they stand; it is used to describe the loops, not taken
  from the code.
\<close>

definition candidates :: "negochat_core \<Rightarrow> (string \<times> bool) list" where
  "candidates c =
     map (\<lambda>n. (n, True)) (stack_b (stacks c))
     @ map (\<lambda>n. (n, False)) (neutral (stacks c))
     @ map (\<lambda>n. (n, False)) (rev (stack_a (stacks c)))"

definition can_concede :: "gamespec \<Rightarrow> offer \<Rightarrow> string \<times> bool \<Rightarrow> bool" where
  "can_concede g p cand =
     (case get_issue g (fst cand) of
        None \<Rightarrow> False
      | Some i \<Rightarrow>
          (case offer_get p (fst cand) of
             None \<Rightarrow> False
           | Some al \<Rightarrow> agent al > 0 \<or> (snd cand \<and> middle al > 0)))"

definition one_unit_to_opponent :: "allocation \<Rightarrow> allocation" where
  "one_unit_to_opponent al =
     (if agent al > 0
      then \<lparr>agent = agent al - 1, middle = middle al, human = human al + 1\<rparr>
      else \<lparr>agent = agent al, middle = middle al - 1, human = human al + 1\<rparr>)"

definition transfer :: "offer \<Rightarrow> string \<Rightarrow> offer" where
  "transfer p n =
     (case offer_get p n of
        None \<Rightarrow> p
      | Some al \<Rightarrow> offer_set p n (Some (one_unit_to_opponent al)))"

definition opened_core :: negochat_core where
  "opened_core = classic_core\<lparr>current_proposal := Some classic_opening, offers_made := 1\<rparr>"

definition first_concession :: offer where
  "first_concession =
     Offer [(''apples'', Some \<lparr>agent = 4, middle = 0, human = 0\<rparr>),
            (''oranges'', Some \<lparr>agent = 1, middle = 1, human = 1\<rparr>),
            (''bananas'', Some \<lparr>agent = 0, middle = 0, human = 2\<rparr>)]"





section \<open>The event bus (core/bus.py)\<close>

text \<open>
  The delay queue is a \<^verbatim>\<open>queue.PriorityQueue\<close> of tuples
  \<^verbatim>\<open>(execute_at, event)\<close>: a list kept as a binary heap by the functions of
  Python's \<^verbatim>\<open>heapq\<close>, which order the tuples by \<^verbatim>\<open><\<close>. Tuples compare item by
  item: for different times the times decide; for equal times and equal events (the
  dataclass compares field by field) the tuples are equal and \<^verbatim>\<open><\<close> is false; for
  equal times and different events \<^verbatim>\<open><\<close> is asked of the two events, which a
  dataclass without \<^verbatim>\<open>order=True\<close> does not define: TypeError.
  The heap functions follow CPython's \<^verbatim>\<open>Lib/heapq.py\<close>, with list positions as
  natural numbers. An exception ends the call; what the list holds afterwards is not
  modelled.
\<close>

type_synonym entry = "real \<times> event"

definition entry_lt :: "entry \<Rightarrow> entry \<Rightarrow> error + bool" where
  "entry_lt x y =
     (if fst x \<noteq> fst y then Inr (fst x < fst y)
      else if snd x = snd y then Inr False
      else Inl TypeError)"

text \<open>
  \<^verbatim>\<open>heapq._siftdown(heap, startpos, pos)\<close>: the loop, with \<^verbatim>\<open>newitem\<close> read
  before it.
\<close>

function siftdown_loop :: "entry list \<Rightarrow> nat \<Rightarrow> entry \<Rightarrow> nat \<Rightarrow> error + entry list" where
  "siftdown_loop heap startpos newitem pos =
     (if pos > startpos then
        (let parentpos = (pos - 1) div 2; parent = heap ! parentpos
         in case entry_lt newitem parent of
              Inl e \<Rightarrow> Inl e
            | Inr True \<Rightarrow> siftdown_loop (heap[pos := parent]) startpos newitem parentpos
            | Inr False \<Rightarrow> Inr (heap[pos := newitem]))
      else Inr (heap[pos := newitem]))"
  by pat_completeness auto
termination
  by (relation "measure (\<lambda>(heap, startpos, newitem, pos). pos)") auto

declare siftdown_loop.simps [simp del]

definition siftdown :: "entry list \<Rightarrow> nat \<Rightarrow> nat \<Rightarrow> error + entry list" where
  "siftdown heap startpos pos =
     (if pos < length heap then siftdown_loop heap startpos (heap ! pos) pos
      else Inl IndexError)"

text \<open>
  \<^verbatim>\<open>heapq._siftup(heap, pos)\<close>: the loop moves the smaller child up until a leaf is
  reached and answers the heap and the leaf's position.
\<close>

function siftup_loop :: "entry list \<Rightarrow> nat \<Rightarrow> nat \<Rightarrow> error + (entry list \<times> nat)" where
  "siftup_loop heap endpos pos =
     (let childpos = 2 * pos + 1 in
      if childpos < endpos then
        (let rightpos = childpos + 1 in
         case (if rightpos < endpos
               then (case entry_lt (heap ! childpos) (heap ! rightpos) of
                       Inl e \<Rightarrow> Inl e | Inr b \<Rightarrow> Inr (\<not> b))
               else Inr False) of
           Inl e \<Rightarrow> Inl e
         | Inr take_right \<Rightarrow>
             (let child = (if take_right then rightpos else childpos)
              in siftup_loop (heap[pos := heap ! child]) endpos child))
      else Inr (heap, pos))"
  by pat_completeness auto
termination
  by (relation "measure (\<lambda>(heap, endpos, pos). endpos - pos)") auto

declare siftup_loop.simps [simp del]

definition siftup :: "entry list \<Rightarrow> nat \<Rightarrow> error + entry list" where
  "siftup heap pos =
     (if pos < length heap then
        (let newitem = heap ! pos
         in case siftup_loop heap (length heap) pos of
              Inl e \<Rightarrow> Inl e
            | Inr (heap', leaf) \<Rightarrow> siftdown (heap'[leaf := newitem]) pos leaf)
      else Inl IndexError)"

definition heappush :: "entry list \<Rightarrow> entry \<Rightarrow> error + entry list" where
  "heappush heap item = siftdown (heap @ [item]) 0 (length heap)"

definition heappop :: "entry list \<Rightarrow> error + (entry \<times> entry list)" where
  "heappop heap =
     (if heap = [] then Inl IndexError
      else
        let lastelt = last heap; rest = butlast heap
        in if rest \<noteq> [] then
             (case siftup (rest[0 := lastelt]) 0 of
                Inl e \<Rightarrow> Inl e
              | Inr heap' \<Rightarrow> Inr (rest ! 0, heap'))
           else Inr (lastelt, rest))"

text \<open>
  The bus, as far as delayed dispatch goes: the delay queue. Subscribers and their
  handlers are left out; \<^verbatim>\<open>_dispatch\<close> catches whatever a handler raises, so a
  dispatch is the event's place in the list of dispatched events.
\<close>

record event_bus =
  delayed_queue :: "entry list"

definition EventBus :: event_bus where
  "EventBus = \<lparr>delayed_queue = []\<rparr>"

text \<open>\<^verbatim>\<open>_queue_delayed\<close>; \<open>now\<close> is the reading of the clock.\<close>

definition queue_delayed :: "real \<Rightarrow> event_bus \<Rightarrow> event \<Rightarrow> error + event_bus" where
  "queue_delayed now bus e =
     (let execute_at = now + real_of_int (delay_ms e) / 1000
      in case heappush (delayed_queue bus) (execute_at, e) of
           Inl err \<Rightarrow> Inl err
         | Inr q \<Rightarrow> Inr (bus\<lparr>delayed_queue := q\<rparr>))"

text \<open>\<^verbatim>\<open>publish\<close> answers the events dispatched at once and the bus.\<close>

definition publish :: "real \<Rightarrow> event_bus \<Rightarrow> event \<Rightarrow> error + (event list \<times> event_bus)" where
  "publish now bus e =
     (if delay_ms e > 0 then
        (case queue_delayed now bus e of Inl err \<Rightarrow> Inl err | Inr bus' \<Rightarrow> Inr ([], bus'))
      else Inr ([e], bus))"

text \<open>
  \<^verbatim>\<open>publish_all\<close>: each event is published at its own clock reading; an exception
  ends the loop.
\<close>

fun publish_all :: "event_bus \<Rightarrow> (real \<times> event) list \<Rightarrow> error + (event list \<times> event_bus)" where
  "publish_all bus [] = Inr ([], bus)"
| "publish_all bus ((now, e) # rest) =
     (case publish now bus e of
        Inl err \<Rightarrow> Inl err
      | Inr (d, bus') \<Rightarrow>
          (case publish_all bus' rest of
             Inl err \<Rightarrow> Inl err
           | Inr (d', bus'') \<Rightarrow> Inr (d @ d', bus'')))"

text \<open>
  The sift functions keep the length of the list, so \<^verbatim>\<open>heappop\<close> shortens it:
  the facts the termination of the processing loop rests on.
\<close>

lemma siftdown_loop_length:
  "siftdown_loop heap startpos newitem pos = Inr heap' \<Longrightarrow> length heap' = length heap"
proof (induction heap startpos newitem pos arbitrary: heap' rule: siftdown_loop.induct)
  case (1 heap startpos newitem pos)
  show ?case
  proof (cases "pos > startpos")
    case False
    then show ?thesis using "1.prems" by (subst (asm) siftdown_loop.simps) auto
  next
    case True
    let ?pp = "(pos - 1) div 2"
    show ?thesis
    proof (cases "entry_lt newitem (heap ! ?pp)")
      case (Inl e)
      then show ?thesis using "1.prems" True by (subst (asm) siftdown_loop.simps) (simp add: Let_def)
    next
      case (Inr b)
      show ?thesis
      proof (cases b)
        case True
        have "siftdown_loop (heap[pos := heap ! ?pp]) startpos newitem ?pp = Inr heap'"
          using "1.prems" \<open>pos > startpos\<close> Inr True
          by (subst (asm) siftdown_loop.simps) (simp add: Let_def)
        then have "length heap' = length (heap[pos := heap ! ?pp])"
          using "1.IH"[OF \<open>pos > startpos\<close> refl refl Inr, of heap'] True by simp
        then show ?thesis by simp
      next
        case False
        then show ?thesis using "1.prems" \<open>pos > startpos\<close> Inr
          by (subst (asm) siftdown_loop.simps) (auto simp add: Let_def)
      qed
    qed
  qed
qed

lemma siftdown_length: "siftdown heap startpos pos = Inr heap' \<Longrightarrow> length heap' = length heap"
  by (auto simp add: siftdown_def dest: siftdown_loop_length split: if_splits)

lemma siftup_loop_length:
  "siftup_loop heap endpos pos = Inr (heap', leaf) \<Longrightarrow> length heap' = length heap"
proof (induction heap endpos pos arbitrary: heap' leaf rule: siftup_loop.induct)
  case (1 heap endpos pos)
  define c where "c = 2 * pos + 1"
  define r where "r = (if c + 1 < endpos
               then (case entry_lt (heap ! c) (heap ! (c + 1)) of
                       Inl e \<Rightarrow> Inl e | Inr b \<Rightarrow> Inr (\<not> b))
               else Inr False)"
  have unfold: "siftup_loop heap endpos pos =
      (if c < endpos then
         (case r of Inl e \<Rightarrow> Inl e
          | Inr take_right \<Rightarrow>
              siftup_loop (heap[pos := heap ! (if take_right then c + 1 else c)]) endpos
                (if take_right then c + 1 else c))
       else Inr (heap, pos))"
    by (subst siftup_loop.simps) (simp add: Let_def c_def r_def split: sum.splits)
  show ?case
  proof (cases "c < endpos")
    case False
    then show ?thesis using "1.prems" unfold by simp
  next
    case True
    show ?thesis
    proof (cases r)
      case (Inl e)
      then show ?thesis using "1.prems" True unfold by simp
    next
      case (Inr take_right)
      define child where "child = (if take_right then c + 1 else c)"
      have rec: "siftup_loop (heap[pos := heap ! child]) endpos child = Inr (heap', leaf)"
        using "1.prems" True Inr unfold by (simp add: child_def)
      have "length heap' = length (heap[pos := heap ! child])"
      proof (rule "1.IH"[of c "c + 1" take_right child heap' leaf])
        show "c = 2 * pos + 1" by (rule c_def)
        show "c < endpos" by (rule True)
        show "c + 1 = c + 1" by simp
        show "(if c + 1 < endpos
               then (case entry_lt (heap ! c) (heap ! (c + 1)) of
                       Inl e \<Rightarrow> Inl e | Inr b \<Rightarrow> Inr (\<not> b))
               else Inr False) = Inr take_right" using Inr by (simp add: r_def)
        show "child = (if take_right then c + 1 else c)" by (rule child_def)
        show "siftup_loop (heap[pos := heap ! child]) endpos child = Inr (heap', leaf)" by (rule rec)
      qed
      then show ?thesis by simp
    qed
  qed
qed

lemma siftup_length: "siftup heap pos = Inr heap' \<Longrightarrow> length heap' = length heap"
proof -
  assume a: "siftup heap pos = Inr heap'"
  then have p: "pos < length heap" by (simp add: siftup_def split: if_splits)
  obtain h leaf where l: "siftup_loop heap (length heap) pos = Inr (h, leaf)"
    and d: "siftdown (h[leaf := heap ! pos]) pos leaf = Inr heap'"
    using a p by (auto simp add: siftup_def Let_def split: sum.splits)
  have "length heap' = length (h[leaf := heap ! pos])" using siftdown_length[OF d] .
  then show ?thesis using siftup_loop_length[OF l] by simp
qed

lemma heappop_length:
  "heappop heap = Inr (item, heap') \<Longrightarrow> length heap' < length heap"
proof -
  assume a: "heappop heap = Inr (item, heap')"
  then have ne: "heap \<noteq> []" by (auto simp add: heappop_def)
  show ?thesis
  proof (cases "butlast heap = []")
    case True
    then show ?thesis using a ne by (simp add: heappop_def Let_def)
  next
    case False
    then have "siftup ((butlast heap)[0 := last heap]) 0 = Inr heap'"
      using a ne by (auto simp add: heappop_def Let_def split: sum.splits)
    then have "length heap' = length ((butlast heap)[0 := last heap])" by (rule siftup_length)
    then show ?thesis using ne by simp
  qed
qed

text \<open>
  \<^verbatim>\<open>process_delayed_events\<close>: the queue is popped while its least entry is due; an
  entry that is not due is put back and ends the loop. \<^verbatim>\<open>queue.Empty\<close> cannot be
  raised after the test for emptiness; the TypeError of a comparison is not caught.
\<close>

function process_loop :: "real \<Rightarrow> entry list \<Rightarrow> event list \<Rightarrow> error + (event list \<times> entry list)" where
  "process_loop now q dispatched =
     (if q \<noteq> [] then
        (case heappop q of
           Inl err \<Rightarrow> Inl err
         | Inr ((execute_at, e), q') \<Rightarrow>
             if execute_at \<le> now then process_loop now q' (dispatched @ [e])
             else (case heappush q' (execute_at, e) of
                     Inl err \<Rightarrow> Inl err
                   | Inr q'' \<Rightarrow> Inr (dispatched, q'')))
      else Inr (dispatched, q))"
  by pat_completeness auto
termination
  by (relation "measure (\<lambda>(now, q, dispatched). length q)") (auto dest: heappop_length)

declare process_loop.simps [simp del]

definition process_delayed_events :: "real \<Rightarrow> event_bus \<Rightarrow> error + (event list \<times> event_bus)" where
  "process_delayed_events now bus =
     (case process_loop now (delayed_queue bus) [] of
        Inl err \<Rightarrow> Inl err
      | Inr (dispatched, q) \<Rightarrow> Inr (dispatched, bus\<lparr>delayed_queue := q\<rparr>))"

definition tied_first :: event where
  "tied_first = formal_accept ''a1'' 10 AGENT_ID 500"

definition tied_second :: event where
  "tied_second = formal_accept ''a2'' 10 AGENT_ID 500"

definition early_event :: event where
  "early_event = formal_accept ''b1'' 10 AGENT_ID 300"

definition late_event :: event where
  "late_event = formal_accept ''b2'' 10 AGENT_ID 1000"

text \<open>A time tick without a deadline: no subtype, no \<^verbatim>\<open>remaining_seconds\<close> key.\<close>

definition tick_event :: event where
  "tick_event = time_tick ''t1'' 5 5 None"

text \<open>
  Completeness as section 3 of the spec and the docstring of \<^verbatim>\<open>Offer.is_complete\<close>
  word it: every issue of the game is allocated, with nothing in the middle.
\<close>

definition all_issues_allocated :: "gamespec \<Rightarrow> offer \<Rightarrow> bool" where
  "all_issues_allocated g ofr =
     list_all (\<lambda>i. case offer_get ofr (name i) of
                      None \<Rightarrow> False | Some al \<Rightarrow> alloc_is_complete al)
       (issues g)"

definition partial_dict :: pyval where
  "partial_dict = PDict [(''apples'', PList [PInt 3, PInt 0, PInt 1])]"

definition partial_offer :: offer where
  "partial_offer = Offer [(''apples'', Some \<lparr>agent = 3, middle = 0, human = 1\<rparr>)]"

definition partial_offer_event :: event where
  "partial_offer_event = send_offer ''p1'' 1 AGENT_ID partial_dict 0"

definition partial_events :: "(real \<times> event) list" where
  "partial_events = [(1, partial_offer_event), (2, human_accept_event), (3, agent_accept_event)]"

definition partially_offered_session :: session where
  "partially_offered_session =
     live_session\<lparr>history := history live_session @ [partial_offer_event],
       current_offer := partial_offer, last_agent_offer := Some partial_offer,
       acceptance := FormalAcceptance\<rparr>"

definition partially_accepted_session :: session where
  "partially_accepted_session =
     partially_offered_session\<lparr>
       history := history partially_offered_session @ [human_accept_event],
       acceptance := FormalAcceptance\<lparr>human_accepted := True, human_accepted_at := Some 2\<rparr>\<rparr>"

definition partially_agreed_session :: session where
  "partially_agreed_session =
     partially_accepted_session\<lparr>
       history := history partially_accepted_session @ [agent_accept_event],
       acceptance := \<lparr>human_accepted = True, agent_accepted = True,
                       human_accepted_at = Some 2, agent_accepted_at = Some 3\<rparr>,
       state := COMPLETED, end_time := Some 3\<rparr>"











section \<open>Offer validation\<close>

lemma validate_issues_iff:
  "fst (validate_issues is ofr) \<longleftrightarrow>
     (\<forall>i \<in> set is. \<forall>al. offer_get ofr (name i) = Some al \<longrightarrow> alloc_total al = quantity i)"
  by (induction "is") (auto split: option.splits)

text \<open>
  Claim C3. For every game and every offer, \<^verbatim>\<open>validate_offer\<close> succeeds if and only
  if every issue of the game whose allocation is present in the offer has counts
  agent + middle + human equal to the issue's quantity; an issue the offer does not
  address (missing key or \<^verbatim>\<open>None\<close>) is skipped.
\<close>

theorem validate_offer_iff_present_sums:
  "fst (validate_offer g ofr) \<longleftrightarrow>
     (\<forall>i \<in> set (issues g). \<forall>al. offer_get ofr (name i) = Some al \<longrightarrow>
        agent al + middle al + human al = quantity i)"
  unfolding validate_offer_def validate_issues_iff alloc_total_def ..

theorem validate_offer_iff_present_sums_witness:
  "offer_get apples_only ''apples'' = Some \<lparr>agent = 3, middle = 0, human = 1\<rparr>
   \<and> offer_get apples_only ''oranges'' = None
   \<and> offer_get apples_only ''bananas'' = None
   \<and> fst (validate_offer classic_resource_game apples_only)"
proof -
  have h: "\<forall>i \<in> set (issues classic_resource_game). \<forall>al.
      offer_get apples_only (name i) = Some al \<longrightarrow>
      agent al + middle al + human al = quantity i"
    by (simp add: classic_resource_game_def classic_issues_def offer_get_def apples_only_def)
  have "fst (validate_offer classic_resource_game apples_only)"
    using h validate_offer_iff_present_sums [of classic_resource_game apples_only] by blast
  then show ?thesis by (simp add: offer_get_def apples_only_def)
qed

section \<open>Event serialisation\<close>

lemma EventType_value: "EventType (PStr (event_type_value t)) = Inr t"
  by (cases t) (simp_all add: all_event_types_def)

lemma MessageSubtype_value: "MessageSubtype (PStr (message_subtype_value t)) = Inr t"
  by (cases t) (simp_all add: all_message_subtypes_def)

lemma message_subtype_value_truthy: "message_subtype_value t \<noteq> []"
  by (cases t) simp_all

text \<open>
  Claim C8. For every event, of every event type and with any payload, subtype present
  or \<^verbatim>\<open>None\<close>, deserialising the serialised event succeeds and gives back the
  event, equal in every field (event\_id, event\_type, sender\_id, timestamp, payload,
  subtype, delay\_ms).
\<close>

theorem from_dict_to_dict: "from_dict (to_dict e) = Inr e"
  by (cases "subtype e")
     (simp_all add: from_dict_def to_dict_def bind_err_def subscript_def as_str_def as_float_def
       as_int_def as_dict_def EventType_value MessageSubtype_value message_subtype_value_truthy
       del: EventType.simps MessageSubtype.simps)

theorem from_dict_to_dict_witness:
  "subtype tick_event = None
   \<and> map_of (payload tick_event) ''remaining_seconds'' = None
   \<and> map_of (to_dict tick_event) ''subtype'' = Some PNone
   \<and> from_dict (to_dict tick_event) = Inr tick_event"
  using from_dict_to_dict [of tick_event]
  by (simp add: tick_event_def time_tick_def to_dict_def)

section \<open>The session state machine\<close>

lemma apply_inactive_offer:
  "state s \<noteq> IN_PROGRESS \<Longrightarrow> event_type e = SEND_OFFER \<Longrightarrow> apply_event now s e = (None, s)"
  by (simp add: apply_event_def is_active_def)

lemma state_absorbing:
  "state s \<noteq> IN_PROGRESS \<Longrightarrow> state (snd (apply_event now s e)) = state s"
  by (simp add: apply_event_def is_active_def Let_def handle_offer_def handle_formal_accept_def handle_game_end_def)

lemma acceptance_inactive:
  "state s \<noteq> IN_PROGRESS \<Longrightarrow> acceptance (snd (apply_event now s e)) = acceptance s"
  by (simp add: apply_event_def is_active_def Let_def handle_offer_def handle_formal_accept_def handle_game_end_def)

lemma handle_offer_state: "state (snd (handle_offer s e)) = state s"
  by (simp add: handle_offer_def Let_def split: option.splits sum.splits)

lemma handle_offer_acceptance:
  "acceptance (snd (handle_offer s e)) = acceptance s \<or>
   acceptance (snd (handle_offer s e)) = reset (acceptance s)"
  by (simp add: handle_offer_def Let_def split: option.splits sum.splits)

lemma not_both_reset: "\<not> both_accepted (reset acc)"
  by (simp add: both_accepted_def reset_def)

lemma handle_formal_accept_inv:
  "both_accepted (acceptance (snd (handle_formal_accept now s e))) \<Longrightarrow>
   both_accepted (acceptance s) \<or> state (snd (handle_formal_accept now s e)) = COMPLETED"
  by (simp add: handle_formal_accept_def Let_def complete_negotiation_def split: if_splits)

lemma handle_formal_accept_state:
  "state (snd (handle_formal_accept now s e)) = state s \<or>
   state (snd (handle_formal_accept now s e)) = COMPLETED"
  by (simp add: handle_formal_accept_def Let_def complete_negotiation_def)

lemma handle_game_end_acceptance:
  "acceptance (snd (handle_game_end now s e)) = acceptance s"
  by (simp add: handle_game_end_def Let_def complete_negotiation_def)

lemma inv_step:
  assumes inv: "both_accepted (acceptance s) \<longrightarrow> state s = COMPLETED"
  shows "both_accepted (acceptance (snd (apply_event now s e))) \<longrightarrow>
         state (snd (apply_event now s e)) = COMPLETED"
proof (cases "state s = IN_PROGRESS")
  case False
  then show ?thesis
    using inv state_absorbing[of s now e] acceptance_inactive[of s now e] by simp
next
  case True
  then have nb: "\<not> both_accepted (acceptance s)" using inv by auto
  let ?s1 = "s\<lparr>history := history s @ [e]\<rparr>"
  have acc1: "acceptance ?s1 = acceptance s" by simp
  consider (offer) "event_type e = SEND_OFFER"
    | (accept) "event_type e = FORMAL_ACCEPT"
    | (gend) "event_type e = GAME_END"
    | (other) "event_type e \<notin> {SEND_OFFER, FORMAL_ACCEPT, GAME_END}" by auto
  then show ?thesis
  proof cases
    case offer
    then have ap: "apply_event now s e = handle_offer ?s1 e"
      using True by (simp add: apply_event_def is_active_def Let_def)
    show ?thesis
      using handle_offer_acceptance[of ?s1 e] nb not_both_reset[of "acceptance s"]
      unfolding ap by auto
  next
    case accept
    then have ap: "apply_event now s e = handle_formal_accept now ?s1 e"
      using True by (simp add: apply_event_def is_active_def Let_def)
    show ?thesis
      using handle_formal_accept_inv[of now ?s1 e] nb unfolding ap by auto
  next
    case gend
    then have ap: "apply_event now s e = handle_game_end now ?s1 e"
      using True by (simp add: apply_event_def is_active_def Let_def)
    show ?thesis
      using handle_game_end_acceptance[of now ?s1 e] nb unfolding ap by simp
  next
    case other
    then have ap: "apply_event now s e = (None, ?s1)"
      using True by (simp add: apply_event_def is_active_def Let_def)
    show ?thesis using nb unfolding ap by simp
  qed
qed

lemma reachable_inv: "reachable s \<Longrightarrow> both_accepted (acceptance s) \<longrightarrow> state s = COMPLETED"
proof (induction rule: reachable.induct)
  case (reach_init g sid s)
  then show ?case
    by (auto simp: NegotiationSession_def bind_err_def both_accepted_def FormalAcceptance_def split: sum.splits)
next
  case (reach_start s now eid s' ev)
  then show ?case by (auto simp: start_def Let_def both_accepted_def split: if_splits)
next
  case (reach_event s now e)
  then show ?case using inv_step by blast
qed

lemma completions_completed: "state s = COMPLETED \<Longrightarrow> completions s evs = 0"
proof (induction evs arbitrary: s)
  case Nil then show ?case by simp
next
  case (Cons a evs)
  obtain now e where a: "a = (now, e)" by (cases a)
  have "state (snd (apply_event now s e)) = COMPLETED"
    using state_absorbing[of s now e] Cons.prems by simp
  with Cons a show ?case by (simp add: Let_def)
qed

lemma completions_le_1: "completions s evs \<le> 1"
proof (induction evs arbitrary: s)
  case Nil then show ?case by simp
next
  case (Cons a evs)
  obtain now e where a: "a = (now, e)" by (cases a)
  show ?case
  proof (cases "state s \<noteq> COMPLETED \<and> state (snd (apply_event now s e)) = COMPLETED")
    case True
    then show ?thesis using completions_completed[of "snd (apply_event now s e)" evs] a by (simp add: Let_def)
  next
    case False
    then show ?thesis using Cons.IH[of "snd (apply_event now s e)"] a by (auto simp add: Let_def)
  qed
qed

lemma reset_eq: "reset acc = FormalAcceptance"
  by (simp add: reset_def FormalAcceptance_def)

lemma apply_event_valid_offer:
  assumes "state s = IN_PROGRESS" "event_type e = SEND_OFFER"
    "map_of (payload e) ''offer'' = Some d" "truthy d" "Offer_from_dict d = Inr ofr"
    "fst (validate_offer (game s) ofr)"
  shows "apply_event now s e =
     (None, if sender_id e = HUMAN_ID
            then s\<lparr>history := history s @ [e], current_offer := ofr,
                   last_human_offer := Some ofr, acceptance := FormalAcceptance\<rparr>
            else s\<lparr>history := history s @ [e], current_offer := ofr,
                   last_agent_offer := Some ofr, acceptance := FormalAcceptance\<rparr>)"
  using assms
  by (simp add: apply_event_def is_active_def Let_def handle_offer_def get_offer_def reset_eq)

lemma apply_event_invalid_offer:
  assumes "state s = IN_PROGRESS" "event_type e = SEND_OFFER"
    "map_of (payload e) ''offer'' = Some d" "truthy d" "Offer_from_dict d = Inr ofr"
    "\<not> fst (validate_offer (game s) ofr)"
  shows "apply_event now s e = (None, s\<lparr>history := history s @ [e]\<rparr>)"
  using assms
  by (simp add: apply_event_def is_active_def Let_def handle_offer_def get_offer_def)

lemma apply_event_accept_incomplete:
  assumes "state s = IN_PROGRESS" "event_type e = FORMAL_ACCEPT" "\<not> is_complete (current_offer s)"
  shows "apply_event now s e = (None, s\<lparr>history := history s @ [e]\<rparr>)"
  using assms
  by (simp add: apply_event_def is_active_def Let_def handle_formal_accept_def)

lemma apply_event_accept_complete:
  assumes "state s = IN_PROGRESS" "event_type e = FORMAL_ACCEPT" "is_complete (current_offer s)"
  shows "apply_event now s e =
     (let s1 = (if sender_id e = HUMAN_ID
                then s\<lparr>history := history s @ [e],
                       acceptance := (acceptance s)\<lparr>human_accepted := True,
                         human_accepted_at := Some (timestamp e)\<rparr>\<rparr>
                else s\<lparr>history := history s @ [e],
                       acceptance := (acceptance s)\<lparr>agent_accepted := True,
                         agent_accepted_at := Some (timestamp e)\<rparr>\<rparr>)
      in if both_accepted (acceptance s1)
         then (None, s1\<lparr>state := COMPLETED, end_time := Some now\<rparr>)
         else (None, s1))"
  using assms
  by (simp add: apply_event_def is_active_def Let_def handle_formal_accept_def complete_negotiation_def)

subsection \<open>A run of the classic game to mutual agreement\<close>

lemma fresh_session_init: "NegotiationSession classic_resource_game ''demo'' = Inr fresh_session"
  by (simp add: NegotiationSession_def create_initial_offer_def bind_err_def
      classic_resource_game_def classic_issues_def all_in_middle_def Allocation_init_def
      fresh_session_def)

lemma live_session_start: "start 0 ''e0'' fresh_session = Inr (live_session, game_start ''e0'' 0 ''classic_resource'' 0)"
  by (simp add: start_def fresh_session_def live_session_def Let_def classic_resource_game_def)

lemma full_dict_offer: "Offer_from_dict full_dict = Inr full_offer"
  by (simp add: Offer_from_dict_def full_dict_def full_offer_def bind_err_def
      allocation_of_val_def Allocation_init_def)

lemma full_offer_valid: "fst (validate_offer classic_resource_game full_offer)"
  by (simp add: validate_offer_def classic_resource_game_def classic_issues_def
      full_offer_def offer_get_def alloc_total_def)

lemma full_offer_complete: "is_complete full_offer"
  by (simp add: is_complete_def full_offer_def alloc_is_complete_def)

lemma live_session_simps:
  "state live_session = IN_PROGRESS" "game live_session = classic_resource_game"
  "acceptance live_session = FormalAcceptance"
  by (simp_all add: live_session_def fresh_session_def)

lemma offer_event_simps:
  "event_type offer_event = SEND_OFFER" "map_of (payload offer_event) ''offer'' = Some full_dict"
  "sender_id offer_event \<noteq> HUMAN_ID"
  by (simp_all add: offer_event_def send_offer_def HUMAN_ID_def AGENT_ID_def)

lemma truthy_full_dict: "truthy full_dict"
  by (simp add: full_dict_def)

lemma step_offer: "apply_event 1 live_session offer_event = (None, offered_session)"
  using apply_event_valid_offer[of live_session offer_event full_dict full_offer 1]
  by (simp add: live_session_simps offer_event_simps truthy_full_dict full_dict_offer
      full_offer_valid offered_session_def)

lemma offered_session_simps:
  "state offered_session = IN_PROGRESS" "current_offer offered_session = full_offer"
  "acceptance offered_session = FormalAcceptance"
  by (simp_all add: offered_session_def live_session_simps)

lemma human_accept_event_simps:
  "event_type human_accept_event = FORMAL_ACCEPT" "sender_id human_accept_event = HUMAN_ID"
  "timestamp human_accept_event = 2"
  by (simp_all add: human_accept_event_def formal_accept_def)

lemma agent_accept_event_simps:
  "event_type agent_accept_event = FORMAL_ACCEPT" "sender_id agent_accept_event \<noteq> HUMAN_ID"
  "timestamp agent_accept_event = 3"
  by (simp_all add: agent_accept_event_def formal_accept_def HUMAN_ID_def AGENT_ID_def)

lemma step_human_accept:
  "apply_event 2 offered_session human_accept_event = (None, half_accepted_session)"
  using apply_event_accept_complete[of offered_session human_accept_event 2]
  by (simp add: offered_session_simps human_accept_event_simps full_offer_complete
      half_accepted_session_def both_accepted_def FormalAcceptance_def Let_def)

lemma half_accepted_session_simps:
  "state half_accepted_session = IN_PROGRESS" "current_offer half_accepted_session = full_offer"
  "acceptance half_accepted_session =
     FormalAcceptance\<lparr>human_accepted := True, human_accepted_at := Some 2\<rparr>"
  by (simp_all add: half_accepted_session_def offered_session_simps)

lemma step_agent_accept:
  "apply_event 3 half_accepted_session agent_accept_event = (None, agreed_session)"
  using apply_event_accept_complete[of half_accepted_session agent_accept_event 3]
  by (simp add: half_accepted_session_simps agent_accept_event_simps full_offer_complete
      agreed_session_def both_accepted_def FormalAcceptance_def Let_def)

lemma run_agreement: "run live_session agreement_events = agreed_session"
  by (simp add: agreement_events_def step_offer step_human_accept step_agent_accept)

lemma completions_agreement: "completions live_session agreement_events = 1"
  by (simp add: agreement_events_def step_offer step_human_accept step_agent_accept Let_def
      live_session_simps offered_session_simps half_accepted_session_simps agreed_session_def)

lemma reachable_run: "reachable s \<Longrightarrow> reachable (run s evs)"
proof (induction evs arbitrary: s)
  case Nil then show ?case by simp
next
  case (Cons a evs)
  obtain now e where a: "a = (now, e)" by (cases a)
  show ?case using Cons a by (simp add: reach_event)
qed

lemma completions_ge_1:
  "state s \<noteq> COMPLETED \<Longrightarrow> state (run s evs) = COMPLETED \<Longrightarrow> 1 \<le> completions s evs"
proof (induction evs arbitrary: s)
  case Nil then show ?case by simp
next
  case (Cons a evs)
  obtain now e where a: "a = (now, e)" by (cases a)
  show ?case
  proof (cases "state (snd (apply_event now s e)) = COMPLETED")
    case True
    then show ?thesis using Cons.prems a by (simp add: Let_def)
  next
    case False
    then show ?thesis using Cons.IH[of "snd (apply_event now s e)"] Cons.prems a
      by (simp add: Let_def)
  qed
qed

lemma both_accepted_needs_accept:
  assumes "state s = IN_PROGRESS" "\<not> both_accepted (acceptance s)"
    "both_accepted (acceptance (snd (apply_event now s e)))"
  shows "event_type e = FORMAL_ACCEPT"
proof (rule ccontr)
  assume ne: "event_type e \<noteq> FORMAL_ACCEPT"
  let ?s1 = "s\<lparr>history := history s @ [e]\<rparr>"
  show False
  proof (cases "event_type e = SEND_OFFER")
    case True
    then have ap: "apply_event now s e = handle_offer ?s1 e"
      using assms(1) by (simp add: apply_event_def is_active_def Let_def)
    show False
      using handle_offer_acceptance[of ?s1 e] assms(2,3) not_both_reset[of "acceptance s"]
      unfolding ap by auto
  next
    case False
    then have "acceptance (snd (apply_event now s e)) = acceptance s"
      using ne assms(1)
      by (simp add: apply_event_def is_active_def Let_def handle_game_end_def complete_negotiation_def)
    then show False using assms(2,3) by simp
  qed
qed

text \<open>
  Claim C1. In every session a run can produce, both acceptance flags being true implies
  the state COMPLETED; the step that makes both flags true in a session in progress is
  a FORMAL\_ACCEPT and ends in COMPLETED (the call with reason mutual\_agreement); a run
  enters COMPLETED at most once, and exactly once when it ends with both flags true;
  COMPLETED is never left; and applying a SEND\_OFFER to a completed session returns
  the session unchanged in every field (offer, flags, state, history), raising nothing.
\<close>

theorem mutual_acceptance_completes_once:
  assumes "reachable s"
  shows "(both_accepted (acceptance s) \<longrightarrow> state s = COMPLETED)
       \<and> (state s = IN_PROGRESS \<and> both_accepted (acceptance (snd (apply_event now s e)))
            \<longrightarrow> event_type e = FORMAL_ACCEPT \<and> state (snd (apply_event now s e)) = COMPLETED)
       \<and> completions s evs \<le> 1
       \<and> (state s \<noteq> COMPLETED \<and> both_accepted (acceptance (run s evs))
            \<longrightarrow> completions s evs = 1)
       \<and> (state s = COMPLETED \<longrightarrow> state (run s evs) = COMPLETED)
       \<and> (state s = COMPLETED \<and> event_type e = SEND_OFFER \<longrightarrow> apply_event now s e = (None, s))"
proof -
  have inv: "both_accepted (acceptance s) \<longrightarrow> state s = COMPLETED"
    using assms by (rule reachable_inv)
  have step: "state s = IN_PROGRESS \<and> both_accepted (acceptance (snd (apply_event now s e)))
            \<longrightarrow> event_type e = FORMAL_ACCEPT \<and> state (snd (apply_event now s e)) = COMPLETED"
  proof (intro impI, elim conjE)
    assume a: "state s = IN_PROGRESS" and b: "both_accepted (acceptance (snd (apply_event now s e)))"
    have nb: "\<not> both_accepted (acceptance s)" using inv a by auto
    have "event_type e = FORMAL_ACCEPT" using both_accepted_needs_accept[OF a nb b] .
    moreover have "state (snd (apply_event now s e)) = COMPLETED"
      using reachable_inv[OF reach_event[OF assms, of now e]] b by simp
    ultimately show "event_type e = FORMAL_ACCEPT \<and> state (snd (apply_event now s e)) = COMPLETED"
      by simp
  qed
  have once: "state s \<noteq> COMPLETED \<and> both_accepted (acceptance (run s evs))
            \<longrightarrow> completions s evs = 1"
  proof (intro impI, elim conjE)
    assume a: "state s \<noteq> COMPLETED" and b: "both_accepted (acceptance (run s evs))"
    have "state (run s evs) = COMPLETED"
      using reachable_inv[OF reachable_run[OF assms, of evs]] b by simp
    then have "1 \<le> completions s evs" using completions_ge_1[OF a] by simp
    then show "completions s evs = 1" using completions_le_1[of s evs] by simp
  qed
  have stay: "state s = COMPLETED \<longrightarrow> state (run s evs) = COMPLETED"
  proof
    assume "state s = COMPLETED"
    then show "state (run s evs) = COMPLETED"
    proof (induction evs arbitrary: s)
      case Nil then show ?case by simp
    next
      case (Cons a evs)
      obtain t ev where a: "a = (t, ev)" by (cases a)
      have "state (snd (apply_event t s ev)) = COMPLETED"
        using state_absorbing[of s t ev] Cons.prems by simp
      then show ?case using Cons.IH a by simp
    qed
  qed
  have noop: "state s = COMPLETED \<and> event_type e = SEND_OFFER \<longrightarrow> apply_event now s e = (None, s)"
    using apply_inactive_offer[of s e now] by simp
  show ?thesis
    apply (intro conjI)
    using inv apply assumption
    using step apply assumption
    using completions_le_1[of s evs] apply assumption
    using once apply assumption
    using stay apply assumption
    using noop apply assumption
    done
qed


theorem mutual_acceptance_completes_once_witness:
  "reachable live_session
   \<and> state live_session = IN_PROGRESS
   \<and> run live_session agreement_events = agreed_session
   \<and> both_accepted (acceptance agreed_session)
   \<and> state agreed_session = COMPLETED
   \<and> completions live_session agreement_events = 1
   \<and> apply_event 4 agreed_session (send_offer ''e4'' 4 HUMAN_ID full_dict 0) = (None, agreed_session)"
proof -
  let ?e = "send_offer ''e4'' 4 HUMAN_ID full_dict 0"
  have r0: "reachable fresh_session" using fresh_session_init by (rule reach_init)
  have r1: "reachable live_session" using r0 live_session_start by (rule reach_start)
  have r2: "reachable agreed_session"
    using reachable_run[OF r1, of agreement_events] run_agreement by simp
  have b: "both_accepted (acceptance agreed_session)"
    by (simp add: agreed_session_def both_accepted_def)
  have st: "state live_session = IN_PROGRESS" by (rule live_session_simps)
  have ty: "event_type ?e = SEND_OFFER" by (simp add: send_offer_def)
  note A = mutual_acceptance_completes_once[OF r2, of 4 ?e "[]"]
  note B = mutual_acceptance_completes_once[OF r1, of 4 ?e agreement_events]
  have c: "state agreed_session = COMPLETED" using A b by blast
  have n: "apply_event 4 agreed_session ?e = (None, agreed_session)" using A c ty by blast
  have ne: "state live_session \<noteq> COMPLETED" using st by simp
  have b': "both_accepted (acceptance (run live_session agreement_events))"
    using b run_agreement by simp
  have o: "completions live_session agreement_events = 1" using B ne b' by blast
  show ?thesis using r1 st run_agreement b c o n by simp
qed

subsection \<open>Formal acceptance and offer replacement\<close>

lemma handle_offer_changed:
  assumes "current_offer (snd (handle_offer s e)) \<noteq> current_offer s"
  shows "acceptance (snd (handle_offer s e)) = FormalAcceptance"
proof (cases "get_offer e")
  case None
  then show ?thesis using assms by (simp add: handle_offer_def)
next
  case (Some d)
  show ?thesis
  proof (cases "truthy d")
    case False
    then show ?thesis using assms Some by (simp add: handle_offer_def)
  next
    case True
    show ?thesis
    proof (cases "Offer_from_dict d")
      case (Inl err)
      then show ?thesis using assms Some True by (simp add: handle_offer_def)
    next
      case (Inr ofr)
      show ?thesis
      proof (cases "fst (validate_offer (game s) ofr)")
        case False
        then show ?thesis using assms Some True Inr by (simp add: handle_offer_def)
      next
        case valid: True
        then show ?thesis using Some True Inr
          by (simp add: handle_offer_def Let_def reset_eq)
      qed
    qed
  qed
qed

lemma apply_event_offer_changed:
  assumes "state s = IN_PROGRESS" "event_type e = SEND_OFFER"
    "current_offer (snd (apply_event now s e)) \<noteq> current_offer s"
  shows "acceptance (snd (apply_event now s e)) = FormalAcceptance"
proof -
  let ?s1 = "s\<lparr>history := history s @ [e]\<rparr>"
  have ap: "apply_event now s e = handle_offer ?s1 e"
    using assms(1,2) by (simp add: apply_event_def is_active_def Let_def)
  have "current_offer (snd (handle_offer ?s1 e)) \<noteq> current_offer ?s1"
    using assms(3) unfolding ap by simp
  then show ?thesis unfolding ap by (rule handle_offer_changed)
qed

lemma FormalAcceptance_fields:
  "acc = FormalAcceptance \<longleftrightarrow>
     human_accepted acc = False \<and> agent_accepted acc = False \<and>
     human_accepted_at acc = None \<and> agent_accepted_at acc = None"
  by (cases acc) (auto simp add: FormalAcceptance_def)

text \<open>
  Two facts about the flags of a session in progress, with completeness as the code
  computes it (\<^const>\<open>is_complete\<close> looks at the allocations the offer holds, not at the
  issues of the game): a FORMAL\_ACCEPT applied while \<^const>\<open>is_complete\<close> is false
  leaves the acceptance record as it was; a SEND\_OFFER whose offer dict is non-empty,
  deserialises and passes validation becomes the current offer and leaves both flags
  false and both timestamps unset, and so does every SEND\_OFFER that changes the
  current offer.
\<close>

theorem accept_needs_complete_offer_and_new_offer_resets:
  assumes "state s = IN_PROGRESS"
  shows "(event_type e = FORMAL_ACCEPT \<and> \<not> is_complete (current_offer s) \<longrightarrow>
            acceptance (snd (apply_event now s e)) = acceptance s)
       \<and> (event_type e = SEND_OFFER \<and> get_offer e = Some d \<and> truthy d \<and>
            Offer_from_dict d = Inr ofr \<and> fst (validate_offer (game s) ofr) \<longrightarrow>
            current_offer (snd (apply_event now s e)) = ofr \<and>
            human_accepted (acceptance (snd (apply_event now s e))) = False \<and>
            agent_accepted (acceptance (snd (apply_event now s e))) = False \<and>
            human_accepted_at (acceptance (snd (apply_event now s e))) = None \<and>
            agent_accepted_at (acceptance (snd (apply_event now s e))) = None)
       \<and> (event_type e = SEND_OFFER \<and>
            current_offer (snd (apply_event now s e)) \<noteq> current_offer s \<longrightarrow>
            human_accepted (acceptance (snd (apply_event now s e))) = False \<and>
            agent_accepted (acceptance (snd (apply_event now s e))) = False \<and>
            human_accepted_at (acceptance (snd (apply_event now s e))) = None \<and>
            agent_accepted_at (acceptance (snd (apply_event now s e))) = None)"
proof (intro conjI impI)
  assume "event_type e = FORMAL_ACCEPT \<and> \<not> is_complete (current_offer s)"
  then show "acceptance (snd (apply_event now s e)) = acceptance s"
    using apply_event_accept_incomplete[OF assms, of e now] by simp
next
  assume a: "event_type e = SEND_OFFER \<and> get_offer e = Some d \<and> truthy d \<and>
            Offer_from_dict d = Inr ofr \<and> fst (validate_offer (game s) ofr)"
  then have m: "map_of (payload e) ''offer'' = Some d" by (auto simp add: get_offer_def)
  have ap: "apply_event now s e =
     (None, if sender_id e = HUMAN_ID
            then s\<lparr>history := history s @ [e], current_offer := ofr,
                   last_human_offer := Some ofr, acceptance := FormalAcceptance\<rparr>
            else s\<lparr>history := history s @ [e], current_offer := ofr,
                   last_agent_offer := Some ofr, acceptance := FormalAcceptance\<rparr>)"
    using apply_event_valid_offer[OF assms _ m, of ofr now] a by simp
  show "current_offer (snd (apply_event now s e)) = ofr"
    and "human_accepted (acceptance (snd (apply_event now s e))) = False"
    and "agent_accepted (acceptance (snd (apply_event now s e))) = False"
    and "human_accepted_at (acceptance (snd (apply_event now s e))) = None"
    and "agent_accepted_at (acceptance (snd (apply_event now s e))) = None"
    unfolding ap by (simp_all add: FormalAcceptance_def)
next
  assume a: "event_type e = SEND_OFFER \<and>
            current_offer (snd (apply_event now s e)) \<noteq> current_offer s"
  have "acceptance (snd (apply_event now s e)) = FormalAcceptance"
    using apply_event_offer_changed[OF assms, of e now] a by simp
  then show "human_accepted (acceptance (snd (apply_event now s e))) = False"
    and "agent_accepted (acceptance (snd (apply_event now s e))) = False"
    and "human_accepted_at (acceptance (snd (apply_event now s e))) = None"
    and "agent_accepted_at (acceptance (snd (apply_event now s e))) = None"
    by (simp_all add: FormalAcceptance_def)
qed

lemma counter_dict_offer: "Offer_from_dict counter_dict = Inr counter_offer"
  by (simp add: Offer_from_dict_def counter_dict_def counter_offer_def bind_err_def
      allocation_of_val_def Allocation_init_def)

lemma counter_offer_valid: "fst (validate_offer classic_resource_game counter_offer)"
  by (simp add: validate_offer_def classic_resource_game_def classic_issues_def
      counter_offer_def offer_get_def alloc_total_def)

lemma counter_event_simps:
  "event_type counter_event = SEND_OFFER" "get_offer counter_event = Some counter_dict"
  by (simp_all add: counter_event_def send_offer_def get_offer_def)

lemma live_offer_incomplete: "\<not> is_complete (current_offer live_session)"
  by (simp add: live_session_def fresh_session_def is_complete_def alloc_is_complete_def)

theorem accept_needs_complete_offer_and_new_offer_resets_witness:
  "state half_accepted_session = IN_PROGRESS
   \<and> human_accepted (acceptance half_accepted_session) = True
   \<and> current_offer (snd (apply_event 6 half_accepted_session counter_event)) = counter_offer
   \<and> human_accepted (acceptance (snd (apply_event 6 half_accepted_session counter_event))) = False
   \<and> agent_accepted (acceptance (snd (apply_event 6 half_accepted_session counter_event))) = False
   \<and> human_accepted_at (acceptance (snd (apply_event 6 half_accepted_session counter_event))) = None
   \<and> \<not> is_complete (current_offer live_session)
   \<and> acceptance (snd (apply_event 2 live_session human_accept_event)) = acceptance live_session"
proof -
  have g: "game half_accepted_session = classic_resource_game"
    by (simp add: half_accepted_session_def offered_session_def live_session_simps)
  have t: "truthy counter_dict" by (simp add: counter_dict_def)
  note A = accept_needs_complete_offer_and_new_offer_resets
    [where s = half_accepted_session and e = counter_event and d = counter_dict
       and ofr = counter_offer and now = 6, OF half_accepted_session_simps(1)]
  note B = accept_needs_complete_offer_and_new_offer_resets
    [where s = live_session and e = human_accept_event and d = counter_dict
       and ofr = counter_offer and now = 2, OF live_session_simps(1)]
  have pre: "event_type counter_event = SEND_OFFER \<and> get_offer counter_event = Some counter_dict \<and>
    truthy counter_dict \<and> Offer_from_dict counter_dict = Inr counter_offer \<and>
    fst (validate_offer (game half_accepted_session) counter_offer)"
    by (simp add: counter_event_simps t counter_dict_offer g counter_offer_valid)
  have r: "current_offer (snd (apply_event 6 half_accepted_session counter_event)) = counter_offer \<and>
      human_accepted (acceptance (snd (apply_event 6 half_accepted_session counter_event))) = False \<and>
      agent_accepted (acceptance (snd (apply_event 6 half_accepted_session counter_event))) = False \<and>
      human_accepted_at (acceptance (snd (apply_event 6 half_accepted_session counter_event))) = None \<and>
      agent_accepted_at (acceptance (snd (apply_event 6 half_accepted_session counter_event))) = None"
    using A pre by blast
  have u: "acceptance (snd (apply_event 2 live_session human_accept_event)) = acceptance live_session"
    using B live_offer_incomplete human_accept_event_simps(1) by blast
  have h: "human_accepted (acceptance half_accepted_session) = True"
    by (simp add: half_accepted_session_simps)
  show ?thesis
    using half_accepted_session_simps(1) h r live_offer_incomplete u by simp
qed

subsection \<open>Accepting an offer that leaves issues unset\<close>

lemma partial_dict_offer: "Offer_from_dict partial_dict = Inr partial_offer"
  by (simp add: Offer_from_dict_def partial_dict_def partial_offer_def bind_err_def
      allocation_of_val_def Allocation_init_def)

lemma partial_offer_valid: "fst (validate_offer classic_resource_game partial_offer)"
  by (simp add: validate_offer_def classic_resource_game_def classic_issues_def
      partial_offer_def offer_get_def alloc_total_def)

lemma partial_offer_is_complete: "is_complete partial_offer"
  by (simp add: is_complete_def partial_offer_def alloc_is_complete_def)

lemma partial_offer_not_all_allocated:
  "\<not> all_issues_allocated classic_resource_game partial_offer"
  by (simp add: all_issues_allocated_def classic_resource_game_def classic_issues_def
      partial_offer_def offer_get_def)

lemma partial_offer_event_simps:
  "event_type partial_offer_event = SEND_OFFER"
  "map_of (payload partial_offer_event) ''offer'' = Some partial_dict"
  "sender_id partial_offer_event \<noteq> HUMAN_ID"
  by (simp_all add: partial_offer_event_def send_offer_def HUMAN_ID_def AGENT_ID_def)

lemma truthy_partial_dict: "truthy partial_dict"
  by (simp add: partial_dict_def)

lemma step_partial_offer:
  "apply_event 1 live_session partial_offer_event = (None, partially_offered_session)"
  using apply_event_valid_offer[where s = live_session and e = partial_offer_event
      and d = partial_dict and ofr = partial_offer and now = 1]
  by (simp add: live_session_simps partial_offer_event_simps partial_dict_offer
      partial_offer_valid partially_offered_session_def truthy_partial_dict)

lemma partially_offered_session_simps:
  "state partially_offered_session = IN_PROGRESS"
  "current_offer partially_offered_session = partial_offer"
  "acceptance partially_offered_session = FormalAcceptance"
  by (simp_all add: partially_offered_session_def live_session_simps)

lemma step_partial_human_accept:
  "apply_event 2 partially_offered_session human_accept_event = (None, partially_accepted_session)"
  using apply_event_accept_complete[where s = partially_offered_session
      and e = human_accept_event and now = 2]
  by (simp add: partially_offered_session_simps human_accept_event_simps
      partial_offer_is_complete partially_accepted_session_def both_accepted_def
      FormalAcceptance_def Let_def)

lemma partially_accepted_session_simps:
  "state partially_accepted_session = IN_PROGRESS"
  "current_offer partially_accepted_session = partial_offer"
  "acceptance partially_accepted_session =
     FormalAcceptance\<lparr>human_accepted := True, human_accepted_at := Some 2\<rparr>"
  by (simp_all add: partially_accepted_session_def partially_offered_session_simps)

lemma step_partial_agent_accept:
  "apply_event 3 partially_accepted_session agent_accept_event = (None, partially_agreed_session)"
  using apply_event_accept_complete[where s = partially_accepted_session
      and e = agent_accept_event and now = 3]
  by (simp add: partially_accepted_session_simps agent_accept_event_simps
      partial_offer_is_complete partially_agreed_session_def both_accepted_def
      FormalAcceptance_def Let_def)

text \<open>
  Claim C2 says that a FORMAL\_ACCEPT applied while the current offer is not complete never
  sets the sender's flag. An offer is complete when every issue is present with nothing
  in the middle (section 3 of the spec, and the docstring of \<^verbatim>\<open>Offer.is_complete\<close>:
  all issues are allocated). In the started session of the classic game the agent offers
  apples three to one and nothing else; the offer passes validation and becomes the
  current offer, oranges and bananas unset. \<^verbatim>\<open>is_complete\<close> answers true for it, the
  human's FORMAL\_ACCEPT sets the human flag, and the agent's accept completes the
  session on that offer.
\<close>

theorem accept_of_partial_offer_sets_flag:
  "reachable live_session
   \<and> state live_session = IN_PROGRESS
   \<and> apply_event 1 live_session partial_offer_event = (None, partially_offered_session)
   \<and> current_offer partially_offered_session = partial_offer
   \<and> offer_get partial_offer ''oranges'' = None
   \<and> offer_get partial_offer ''bananas'' = None
   \<and> \<not> all_issues_allocated (game partially_offered_session) partial_offer
   \<and> is_complete partial_offer
   \<and> human_accepted (acceptance partially_offered_session) = False
   \<and> event_type human_accept_event = FORMAL_ACCEPT
   \<and> human_accepted (acceptance (snd (apply_event 2 partially_offered_session human_accept_event)))
       = True
   \<and> state (run live_session partial_events) = COMPLETED
   \<and> current_offer (run live_session partial_events) = partial_offer"
proof -
  have r0: "reachable fresh_session" using fresh_session_init by (rule reach_init)
  have r1: "reachable live_session" using r0 live_session_start by (rule reach_start)
  have g: "game partially_offered_session = classic_resource_game"
    by (simp add: partially_offered_session_def live_session_simps)
  have og: "offer_get partial_offer ''oranges'' = None" "offer_get partial_offer ''bananas'' = None"
    by (simp_all add: partial_offer_def offer_get_def)
  have run: "run live_session partial_events = partially_agreed_session"
    by (simp add: partial_events_def step_partial_offer step_partial_human_accept
        step_partial_agent_accept)
  have fin: "state partially_agreed_session = COMPLETED"
    "current_offer partially_agreed_session = partial_offer"
    by (simp_all add: partially_agreed_session_def partially_accepted_session_simps)
  have h: "human_accepted (acceptance partially_accepted_session) = True"
    by (simp add: partially_accepted_session_simps)
  show ?thesis
    using r1 og partial_offer_not_all_allocated partial_offer_is_complete h fin
    by (simp add: live_session_simps step_partial_offer partially_offered_session_simps g
        human_accept_event_simps step_partial_human_accept run FormalAcceptance_def)
qed

subsection \<open>Invalid offers\<close>

lemma bad_dict_offer: "Offer_from_dict bad_dict = Inr bad_offer"
  by (simp add: Offer_from_dict_def bad_dict_def bad_offer_def bind_err_def
      allocation_of_val_def Allocation_init_def)

lemma bad_offer_invalid: "\<not> fst (validate_offer classic_resource_game bad_offer)"
  by (simp add: validate_offer_def classic_resource_game_def classic_issues_def
      bad_offer_def offer_get_def alloc_total_def)

lemma bad_offer_event_simps:
  "event_type bad_offer_event = SEND_OFFER" "get_offer bad_offer_event = Some bad_dict"
  "map_of (payload bad_offer_event) ''offer'' = Some bad_dict"
  by (simp_all add: bad_offer_event_def send_offer_def get_offer_def)

lemma truthy_bad_dict: "truthy bad_dict"
  by (simp add: bad_dict_def)

text \<open>
  Claim C4 says that an invalid offer leaves every field of the session as it was.
  \<^verbatim>\<open>apply_event\<close> appends the event to the history before it dispatches, so the
  history differs: here an offer of one apple out of four, sent to the started session.
\<close>

theorem invalid_offer_changes_history_counterexample:
  "state live_session = IN_PROGRESS
   \<and> event_type bad_offer_event = SEND_OFFER
   \<and> get_offer bad_offer_event = Some bad_dict
   \<and> Offer_from_dict bad_dict = Inr bad_offer
   \<and> \<not> fst (validate_offer (game live_session) bad_offer)
   \<and> snd (apply_event 5 live_session bad_offer_event) \<noteq> live_session
   \<and> history (snd (apply_event 5 live_session bad_offer_event))
       = history live_session @ [bad_offer_event]"
proof -
  have ap: "apply_event 5 live_session bad_offer_event
      = (None, live_session\<lparr>history := history live_session @ [bad_offer_event]\<rparr>)"
    using apply_event_invalid_offer[where s = live_session and e = bad_offer_event
        and d = bad_dict and ofr = bad_offer and now = 5]
    by (simp add: live_session_simps bad_offer_event_simps truthy_bad_dict bad_dict_offer
        bad_offer_invalid)
  have ne: "live_session\<lparr>history := history live_session @ [bad_offer_event]\<rparr> \<noteq> live_session"
  proof
    assume "live_session\<lparr>history := history live_session @ [bad_offer_event]\<rparr> = live_session"
    then have "history (live_session\<lparr>history := history live_session @ [bad_offer_event]\<rparr>)
        = history live_session" by simp
    then show False by simp
  qed
  show ?thesis
    using ne unfolding ap
    by (simp add: live_session_simps bad_offer_event_simps bad_dict_offer bad_offer_invalid)
qed

text \<open>
  Claim C4, amended. In a session in progress, a SEND\_OFFER whose offer deserialises and
  fails validation raises nothing and changes the history only, which gains the event:
  the current offer, the acceptance record, the state, the times and the last offers
  of both parties are as before.
\<close>

theorem invalid_offer_only_recorded:
  assumes "state s = IN_PROGRESS" "event_type e = SEND_OFFER" "get_offer e = Some d"
    "Offer_from_dict d = Inr ofr" "\<not> fst (validate_offer (game s) ofr)"
  shows "apply_event now s e = (None, s\<lparr>history := history s @ [e]\<rparr>)"
  using assms
  by (simp add: apply_event_def is_active_def Let_def handle_offer_def)

theorem invalid_offer_only_recorded_witness:
  "state half_accepted_session = IN_PROGRESS
   \<and> event_type bad_offer_event = SEND_OFFER
   \<and> get_offer bad_offer_event = Some bad_dict
   \<and> Offer_from_dict bad_dict = Inr bad_offer
   \<and> \<not> fst (validate_offer (game half_accepted_session) bad_offer)
   \<and> apply_event 7 half_accepted_session bad_offer_event
       = (None, half_accepted_session\<lparr>history := history half_accepted_session @ [bad_offer_event]\<rparr>)
   \<and> current_offer (snd (apply_event 7 half_accepted_session bad_offer_event)) = full_offer
   \<and> human_accepted (acceptance (snd (apply_event 7 half_accepted_session bad_offer_event))) = True"
proof -
  have g: "game half_accepted_session = classic_resource_game"
    by (simp add: half_accepted_session_def offered_session_def live_session_simps)
  have inv: "\<not> fst (validate_offer (game half_accepted_session) bad_offer)"
    using bad_offer_invalid g by simp
  have ap: "apply_event 7 half_accepted_session bad_offer_event
       = (None, half_accepted_session\<lparr>history := history half_accepted_session @ [bad_offer_event]\<rparr>)"
    using invalid_offer_only_recorded[OF half_accepted_session_simps(1) bad_offer_event_simps(1,2)
        bad_dict_offer inv, where now = 7] .
  show ?thesis
    unfolding ap using inv
    by (simp add: half_accepted_session_simps bad_offer_event_simps bad_dict_offer)
qed

subsection \<open>The empty offer\<close>

lemma empty_fresh_session_init: "NegotiationSession empty_game ''void'' = Inr empty_fresh_session"
  by (simp add: NegotiationSession_def create_initial_offer_def bind_err_def
      empty_game_def empty_fresh_session_def)

lemma empty_live_session_start:
  "start 0 ''e0'' empty_fresh_session = Inr (empty_live_session, game_start ''e0'' 0 ''empty'' 0)"
  by (simp add: start_def empty_fresh_session_def empty_live_session_def Let_def empty_game_def)

text \<open>
  Claim C10. \<^verbatim>\<open>is_complete\<close> is false for the offer without allocations, and a
  FORMAL\_ACCEPT applied to a session whose current offer has no allocations leaves the
  acceptance record as it was, in every state of the session.
\<close>

theorem empty_offer_is_never_accepted:
  "\<not> is_complete (Offer [])
   \<and> (allocations (current_offer s) = [] \<and> event_type e = FORMAL_ACCEPT \<longrightarrow>
        acceptance (snd (apply_event now s e)) = acceptance s)"
proof (intro conjI impI)
  show "\<not> is_complete (Offer [])" by (simp add: is_complete_def)
next
  assume a: "allocations (current_offer s) = [] \<and> event_type e = FORMAL_ACCEPT"
  then have inc: "\<not> is_complete (current_offer s)" by (simp add: is_complete_def)
  show "acceptance (snd (apply_event now s e)) = acceptance s"
  proof (cases "state s = IN_PROGRESS")
    case True
    then show ?thesis using apply_event_accept_incomplete[OF True _ inc, where e = e and now = now] a by simp
  next
    case False
    then show ?thesis by (rule acceptance_inactive)
  qed
qed

theorem empty_offer_is_never_accepted_witness:
  "reachable empty_live_session
   \<and> state empty_live_session = IN_PROGRESS
   \<and> allocations (current_offer empty_live_session) = []
   \<and> event_type human_accept_event = FORMAL_ACCEPT
   \<and> acceptance (snd (apply_event 2 empty_live_session human_accept_event)) = FormalAcceptance
   \<and> human_accepted (acceptance (snd (apply_event 2 empty_live_session human_accept_event))) = False"
proof -
  have r0: "reachable empty_fresh_session" using empty_fresh_session_init by (rule reach_init)
  have r1: "reachable empty_live_session" using r0 empty_live_session_start by (rule reach_start)
  have e: "allocations (current_offer empty_live_session) = []"
    by (simp add: empty_live_session_def empty_fresh_session_def)
  have acc: "acceptance empty_live_session = FormalAcceptance"
    by (simp add: empty_live_session_def empty_fresh_session_def)
  have st: "state empty_live_session = IN_PROGRESS" by (simp add: empty_live_session_def)
  have u: "acceptance (snd (apply_event 2 empty_live_session human_accept_event))
      = acceptance empty_live_session"
    using empty_offer_is_never_accepted[where s = empty_live_session
        and e = human_accept_event and now = 2] e
      human_accept_event_simps(1) by blast
  show ?thesis using r1 st e human_accept_event_simps(1) u acc
    by (simp add: FormalAcceptance_def)
qed

section \<open>The NegoChat strategy\<close>

subsection \<open>The opening offer of the classic game\<close>

lemma classic_stacks:
  "stacks classic_core =
     \<lparr>stack_a = [''apples''], stack_b = [''bananas''], neutral = [''oranges''],
      a_index = 0, b_index = 0\<rparr>"
  by (simp add: classic_core_def NegoChatCore_def build_stacks_def Let_def sort_by_def
      classic_resource_game_def classic_issues_def analyse_def value_of_def
      classic_agent_utility_def classic_human_utility_def value_difference_def
      NegotiationStacks_def)

lemma classic_core_fields:
  "strategy classic_core = BALANCED" "core_game classic_core = classic_resource_game"
  "current_proposal classic_core = None" "offers_made classic_core = 0"
  by (simp_all add: classic_core_def NegoChatCore_def)

lemma classic_opening_allocations:
  "opening_allocations (stacks classic_core) BALANCED (issues classic_resource_game) (Offer [])
     = Inr classic_opening"
  by (simp add: classic_stacks classic_resource_game_def classic_issues_def bind_err_def
      all_to_agent_def split_even_def Allocation_init_def offer_set_def classic_opening_def Let_def)

text \<open>
  Claim C6. For the classic game (apples 4 units worth 10 to the agent and 2 to the human,
  oranges 3 units worth 6 and 6, bananas 2 units worth 2 and 10) and the balanced
  strategy, the opening offer gives apples (agent 4, middle 0, human 0), oranges
  (agent 1, middle 1, human 1) and bananas (agent 1, middle 0, human 1).
\<close>

theorem classic_balanced_opening_offer:
  "get_opening_offer classic_core
     = Inr (classic_opening,
            classic_core\<lparr>current_proposal := Some classic_opening, offers_made := 1\<rparr>)
   \<and> offer_get classic_opening ''apples'' = Some \<lparr>agent = 4, middle = 0, human = 0\<rparr>
   \<and> offer_get classic_opening ''oranges'' = Some \<lparr>agent = 1, middle = 1, human = 1\<rparr>
   \<and> offer_get classic_opening ''bananas'' = Some \<lparr>agent = 1, middle = 0, human = 1\<rparr>"
  by (simp add: get_opening_offer_def classic_core_fields classic_opening_allocations bind_err_def)
     (simp add: classic_opening_def offer_get_def)

subsection \<open>The stacks partition the issues\<close>

lemma set_sort_by: "set (sort_by k r xs) = set xs"
  by (simp add: sort_by_def)

lemma length_sort_by: "length (sort_by k r xs) = length xs"
  by (simp add: sort_by_def)

lemma distribute_stack_a:
  "set (stack_a (distribute as st))
     = set (stack_a st) \<union> issue_name ` {a \<in> set as. value_difference a > 0}"
  by (induction as arbitrary: st) auto

lemma distribute_stack_b:
  "set (stack_b (distribute as st))
     = set (stack_b st) \<union> issue_name ` {a \<in> set as. value_difference a < 0}"
  by (induction as arbitrary: st) auto

lemma distribute_neutral:
  "set (neutral (distribute as st))
     = set (neutral st) \<union> issue_name ` {a \<in> set as. value_difference a = 0}"
  by (induction as arbitrary: st) auto

lemma distribute_length:
  "length (stack_a (distribute as st)) + length (stack_b (distribute as st))
     + length (neutral (distribute as st))
   = length (stack_a st) + length (stack_b st) + length (neutral st) + length as"
  by (induction as arbitrary: st) auto

lemma analysed_names:
  "issue_name ` {a \<in> set (map (analyse au ou) is). P (value_difference a)}
     = {n \<in> name ` set is. P (value_of au n - value_of ou n)}"
proof (intro set_eqI iffI)
  fix n
  assume "n \<in> issue_name ` {a \<in> set (map (analyse au ou) is). P (value_difference a)}"
  then obtain i where "i \<in> set is" "P (value_difference (analyse au ou i))"
    "n = issue_name (analyse au ou i)" by auto
  then show "n \<in> {n \<in> name ` set is. P (value_of au n - value_of ou n)}"
    by (simp add: analyse_def value_difference_def)
next
  fix n
  assume "n \<in> {n \<in> name ` set is. P (value_of au n - value_of ou n)}"
  then obtain i where i: "i \<in> set is" "n = name i" "P (value_of au n - value_of ou n)" by auto
  have "analyse au ou i \<in> {a \<in> set (map (analyse au ou) is). P (value_difference a)}"
    using i by (simp add: analyse_def value_difference_def)
  moreover have "issue_name (analyse au ou i) = n" using i by (simp add: analyse_def)
  ultimately show "n \<in> issue_name ` {a \<in> set (map (analyse au ou) is). P (value_difference a)}"
    by (metis (no_types, lifting) imageI)
qed

lemma build_stacks_sets:
  "set (stack_a (build_stacks g au ou strat))
     = {n \<in> name ` set (issues g). value_of au n - value_of ou n > 0}"
  "set (stack_b (build_stacks g au ou strat))
     = {n \<in> name ` set (issues g). value_of au n - value_of ou n < 0}"
  "set (neutral (build_stacks g au ou strat))
     = {n \<in> name ` set (issues g). value_of au n - value_of ou n = 0}"
proof -
  let ?as = "sort_by value_difference True (map (analyse au ou) (issues g))"
  have s: "set ?as = set (map (analyse au ou) (issues g))" by (rule set_sort_by)
  have a: "set (stack_a (distribute ?as NegotiationStacks))
      = {n \<in> name ` set (issues g). value_of au n - value_of ou n > 0}"
    unfolding distribute_stack_a s
    using analysed_names[of au ou "issues g" "\<lambda>d. d > 0"] by (simp add: NegotiationStacks_def)
  have b: "set (stack_b (distribute ?as NegotiationStacks))
      = {n \<in> name ` set (issues g). value_of au n - value_of ou n < 0}"
    unfolding distribute_stack_b s
    using analysed_names[of au ou "issues g" "\<lambda>d. d < 0"] by (simp add: NegotiationStacks_def)
  have c: "set (neutral (distribute ?as NegotiationStacks))
      = {n \<in> name ` set (issues g). value_of au n - value_of ou n = 0}"
    unfolding distribute_neutral s
    using analysed_names[of au ou "issues g" "\<lambda>d. d = 0"] by (simp add: NegotiationStacks_def)
  show "set (stack_a (build_stacks g au ou strat))
     = {n \<in> name ` set (issues g). value_of au n - value_of ou n > 0}"
    using a by (simp add: build_stacks_def Let_def set_sort_by)
  show "set (stack_b (build_stacks g au ou strat))
     = {n \<in> name ` set (issues g). value_of au n - value_of ou n < 0}"
    using b by (simp add: build_stacks_def Let_def set_sort_by)
  show "set (neutral (build_stacks g au ou strat))
     = {n \<in> name ` set (issues g). value_of au n - value_of ou n = 0}"
    using c by (simp add: build_stacks_def Let_def set_sort_by)
qed

lemma build_stacks_length:
  "length (stack_a (build_stacks g au ou strat)) + length (stack_b (build_stacks g au ou strat))
     + length (neutral (build_stacks g au ou strat)) = length (issues g)"
  using distribute_length[of "sort_by value_difference True (map (analyse au ou) (issues g))"
      NegotiationStacks]
  by (simp add: build_stacks_def Let_def length_sort_by NegotiationStacks_def)

text \<open>
  Claim C5. For every game, pair of utility functions and strategy, the stacks the
  constructor builds hold each issue of the game in exactly one of \<open>stack_a\<close>,
  \<open>stack_b\<close>, \<open>neutral\<close>, chosen by the sign of agent value minus opponent value
  alone: positive in \<open>stack_a\<close>, negative in \<open>stack_b\<close>, zero in \<open>neutral\<close>; the
  stacks hold nothing but issues of the game, and as many entries as the game has issues.
\<close>

theorem stacks_partition_issues_by_sign:
  "(\<forall>i \<in> set (issues g).
      (name i \<in> set (stack_a (stacks (NegoChatCore g au ou strat mau cr)))
         \<longleftrightarrow> value_of au (name i) - value_of ou (name i) > 0)
    \<and> (name i \<in> set (stack_b (stacks (NegoChatCore g au ou strat mau cr)))
         \<longleftrightarrow> value_of au (name i) - value_of ou (name i) < 0)
    \<and> (name i \<in> set (neutral (stacks (NegoChatCore g au ou strat mau cr)))
         \<longleftrightarrow> value_of au (name i) - value_of ou (name i) = 0))
   \<and> set (stack_a (stacks (NegoChatCore g au ou strat mau cr)))
       \<union> set (stack_b (stacks (NegoChatCore g au ou strat mau cr)))
       \<union> set (neutral (stacks (NegoChatCore g au ou strat mau cr)))
     = name ` set (issues g)
   \<and> length (stack_a (stacks (NegoChatCore g au ou strat mau cr)))
       + length (stack_b (stacks (NegoChatCore g au ou strat mau cr)))
       + length (neutral (stacks (NegoChatCore g au ou strat mau cr)))
     = length (issues g)"
proof -
  have st: "stacks (NegoChatCore g au ou strat mau cr) = build_stacks g au ou strat"
    by (simp add: NegoChatCore_def)
  show ?thesis
    unfolding st
    apply (intro conjI ballI)
    subgoal for i by (simp add: build_stacks_sets)
    subgoal for i by (simp add: build_stacks_sets)
    subgoal for i by (simp add: build_stacks_sets)
    subgoal by (auto simp add: build_stacks_sets)
    subgoal by (rule build_stacks_length)
    done
qed

theorem stacks_partition_issues_by_sign_witness:
  "stack_a (stacks classic_core) = [''apples'']
   \<and> stack_b (stacks classic_core) = [''bananas'']
   \<and> neutral (stacks classic_core) = [''oranges'']
   \<and> value_of classic_agent_utility ''apples'' - value_of classic_human_utility ''apples'' = 8
   \<and> value_of classic_agent_utility ''oranges'' - value_of classic_human_utility ''oranges'' = 0
   \<and> value_of classic_agent_utility ''bananas'' - value_of classic_human_utility ''bananas'' = - 8
   \<and> length (stack_a (stacks classic_core)) + length (stack_b (stacks classic_core))
       + length (neutral (stacks classic_core)) = length (issues classic_resource_game)"
proof -
  note T = stacks_partition_issues_by_sign[where g = classic_resource_game
      and au = classic_agent_utility and ou = classic_human_utility and strat = BALANCED
      and mau = "4 / 10" and cr = "1 / 10", folded classic_core_def]
  have len: "length (stack_a (stacks classic_core)) + length (stack_b (stacks classic_core))
       + length (neutral (stacks classic_core)) = length (issues classic_resource_game)"
    using T by blast
  show ?thesis
    using len
    by (simp add: classic_stacks value_of_def classic_agent_utility_def classic_human_utility_def)
qed

subsection \<open>Concessions\<close>

lemma Allocation_init_self:
  "0 \<le> agent al \<Longrightarrow> 0 \<le> middle al \<Longrightarrow> 0 \<le> human al \<Longrightarrow>
   Allocation_init (agent al) (middle al) (human al) = Inr al"
  by (simp add: Allocation_init_def)

lemma copy_items_wf:
  "list_all (\<lambda>(k, v). case v of None \<Rightarrow> True
                 | Some al \<Rightarrow> 0 \<le> agent al \<and> 0 \<le> middle al \<and> 0 \<le> human al) kvs
   \<Longrightarrow> copy_items kvs = Inr kvs"
proof (induction kvs rule: copy_items.induct)
  case 1
  then show ?case by simp
next
  case (2 k rest)
  then show ?case by simp
next
  case (3 k al rest)
  then show ?case by (simp add: Allocation_init_self)
qed

lemma offer_copy_wf: "wf_offer p \<Longrightarrow> offer_copy p = Inr p"
  by (simp add: wf_offer_def offer_copy_def copy_items_wf)

lemma wf_offer_get:
  assumes "wf_offer p" "offer_get p n = Some al"
  shows "0 \<le> agent al \<and> 0 \<le> middle al \<and> 0 \<le> human al"
proof -
  have "map_of (allocations p) n = Some (Some al)"
    using assms(2) by (simp add: offer_get_def split: option.splits)
  then have "(n, Some al) \<in> set (allocations p)" by (rule map_of_SomeD)
  then show ?thesis using assms(1) by (auto simp add: wf_offer_def list_all_iff)
qed

lemma concede_stack_b_find:
  assumes "wf_offer p"
  shows "concede_stack_b g ns p =
     Inr (case find (can_concede g p) (map (\<lambda>n. (n, True)) ns) of
            None \<Rightarrow> None | Some cand \<Rightarrow> Some (transfer p (fst cand)))"
proof (induction ns)
  case Nil
  then show ?case by simp
next
  case (Cons n ns)
  show ?case
  proof (cases "get_issue g n")
    case None
    then show ?thesis using Cons by (simp add: can_concede_def)
  next
    case (Some i)
    show ?thesis
    proof (cases "offer_get p n")
      case None
      then show ?thesis using Cons Some by (simp add: can_concede_def)
    next
      case (Some al)
      have nn: "0 \<le> agent al \<and> 0 \<le> middle al \<and> 0 \<le> human al"
        using wf_offer_get[OF assms Some] .
      show ?thesis
        using Cons \<open>get_issue g n = Some i\<close> Some nn
        by (simp add: can_concede_def transfer_def one_unit_to_opponent_def
            Allocation_init_def bind_err_def)
    qed
  qed
qed

lemma concede_own_unit_find:
  assumes "wf_offer p"
  shows "concede_own_unit g ns p =
     Inr (case find (can_concede g p) (map (\<lambda>n. (n, False)) ns) of
            None \<Rightarrow> None | Some cand \<Rightarrow> Some (transfer p (fst cand)))"
proof (induction ns)
  case Nil
  then show ?case by simp
next
  case (Cons n ns)
  show ?case
  proof (cases "get_issue g n")
    case None
    then show ?thesis using Cons by (simp add: can_concede_def)
  next
    case (Some i)
    show ?thesis
    proof (cases "offer_get p n")
      case None
      then show ?thesis using Cons Some by (simp add: can_concede_def)
    next
      case (Some al)
      have nn: "0 \<le> agent al \<and> 0 \<le> middle al \<and> 0 \<le> human al"
        using wf_offer_get[OF assms Some] .
      show ?thesis
        using Cons \<open>get_issue g n = Some i\<close> Some nn
        by (simp add: can_concede_def transfer_def one_unit_to_opponent_def
            Allocation_init_def bind_err_def)
    qed
  qed
qed

lemma find_append_case:
  "find P (xs @ ys) = (case find P xs of None \<Rightarrow> find P ys | Some x \<Rightarrow> Some x)"
  by (induction xs) auto

lemma make_concession_find:
  assumes "current_proposal c = Some p" "wf_offer p"
  shows "make_concession c =
     Inr (case find (can_concede (core_game c) p) (candidates c) of
            None \<Rightarrow> (None, c)
          | Some cand \<Rightarrow> conceded c (transfer p (fst cand)))"
proof -
  let ?P = "can_concede (core_game c) p"
  let ?b = "find ?P (map (\<lambda>n. (n, True)) (stack_b (stacks c)))"
  let ?n = "find ?P (map (\<lambda>n. (n, False)) (neutral (stacks c)))"
  let ?a = "find ?P (map (\<lambda>n. (n, False)) (rev (stack_a (stacks c))))"
  have cand: "find ?P (candidates c) =
      (case ?b of Some x \<Rightarrow> Some x
       | None \<Rightarrow> (case ?n of Some x \<Rightarrow> Some x | None \<Rightarrow> ?a))"
    by (simp add: candidates_def find_append_case split: option.splits)
  have mc: "make_concession c =
      (case ?b of Some x \<Rightarrow> Inr (conceded c (transfer p (fst x)))
       | None \<Rightarrow> (case ?n of Some x \<Rightarrow> Inr (conceded c (transfer p (fst x)))
                  | None \<Rightarrow> (case ?a of Some x \<Rightarrow> Inr (conceded c (transfer p (fst x)))
                             | None \<Rightarrow> Inr (None, c))))"
    using assms
    by (simp add: make_concession_def offer_copy_wf bind_err_def concede_stack_b_find
        concede_own_unit_find split: option.splits)
  show ?thesis
    unfolding mc cand by (simp split: option.splits)
qed

lemma find_Some_split:
  "find P xs = Some x \<Longrightarrow>
   \<exists>pre post. xs = pre @ x # post \<and> (\<forall>y \<in> set pre. \<not> P y) \<and> P x"
proof (induction xs)
  case Nil
  then show ?case by simp
next
  case (Cons a xs)
  show ?case
  proof (cases "P a")
    case True
    then have "x = a" using Cons.prems by simp
    then have "a # xs = [] @ x # xs \<and> (\<forall>y \<in> set []. \<not> P y) \<and> P x" using True by simp
    then show ?thesis by blast
  next
    case False
    then have "find P xs = Some x" using Cons.prems by simp
    then obtain pre post where "xs = pre @ x # post" "\<forall>y \<in> set pre. \<not> P y" "P x"
      using Cons.IH by blast
    then have "a # xs = (a # pre) @ x # post \<and> (\<forall>y \<in> set (a # pre). \<not> P y) \<and> P x"
      using False by simp
    then show ?thesis by blast
  qed
qed

lemma offer_get_offer_set:
  "offer_get (offer_set p k v) k' = (if k' = k then v else offer_get p k')"
  by (simp add: offer_get_def offer_set_def update_conv')

lemma can_concede_allocation:
  "can_concede g p cand \<Longrightarrow>
   \<exists>al. offer_get p (fst cand) = Some al \<and> (agent al > 0 \<or> (snd cand \<and> middle al > 0))"
  by (auto simp add: can_concede_def split: option.splits)

lemma one_unit_to_opponent_counts:
  "human (one_unit_to_opponent al) = human al + 1"
  "agent al > 0 \<Longrightarrow> agent (one_unit_to_opponent al) = agent al - 1"
  "agent al > 0 \<Longrightarrow> middle (one_unit_to_opponent al) = middle al"
  "\<not> agent al > 0 \<Longrightarrow> agent (one_unit_to_opponent al) = agent al"
  "\<not> agent al > 0 \<Longrightarrow> middle (one_unit_to_opponent al) = middle al - 1"
  by (simp_all add: one_unit_to_opponent_def)

lemma nothing_left_no_candidate:
  assumes "\<forall>k al. offer_get p k = Some al \<longrightarrow> agent al = 0 \<and> middle al = 0"
  shows "\<not> can_concede g p cand"
proof
  assume "can_concede g p cand"
  then obtain al where "offer_get p (fst cand) = Some al"
    "agent al > 0 \<or> (snd cand \<and> middle al > 0)"
    using can_concede_allocation by blast
  then show False using assms by auto
qed

text \<open>
  What \<^verbatim>\<open>_make_concession\<close> does for every current proposal (with the non-negative
  counts the constructor enforces): it raises nothing. When it returns an offer, that
  offer is the proposal with one unit of one issue moved to the opponent (human plus
  one; agent minus one, or, for an entry of \<open>stack_b\<close> of which this party holds no
  unit, middle minus one) and every other allocation unchanged; the issue is the first
  entry, by position in the lists \<open>stack_b\<close>, \<open>neutral\<close>, reversed \<open>stack_a\<close>, that
  is an issue of the game, is addressed by the proposal and has such a unit. It returns
  none, leaving the core as it is, exactly when no entry has such a unit. The order is
  one of list positions; no valuation enters.
\<close>

theorem make_concession_moves_one_unit:
  assumes "current_proposal c = Some p" "wf_offer p"
  shows "\<exists>r c'. make_concession c = Inr (r, c')
     \<and> (r = None \<longleftrightarrow> (\<forall>cand \<in> set (candidates c). \<not> can_concede (core_game c) p cand))
     \<and> (r = None \<longrightarrow> c' = c)
     \<and> (\<forall>ofr. r = Some ofr \<longrightarrow>
          (\<exists>pre cand post al.
             candidates c = pre @ cand # post
           \<and> (\<forall>x \<in> set pre. \<not> can_concede (core_game c) p x)
           \<and> can_concede (core_game c) p cand
           \<and> offer_get p (fst cand) = Some al
           \<and> ofr = offer_set p (fst cand) (Some (one_unit_to_opponent al))
           \<and> human (one_unit_to_opponent al) = human al + 1
           \<and> (if agent al > 0
               then agent (one_unit_to_opponent al) = agent al - 1
                    \<and> middle (one_unit_to_opponent al) = middle al
               else snd cand \<and> middle al > 0
                    \<and> agent (one_unit_to_opponent al) = agent al
                    \<and> middle (one_unit_to_opponent al) = middle al - 1)
           \<and> (\<forall>k. k \<noteq> fst cand \<longrightarrow> offer_get ofr k = offer_get p k)
           \<and> current_proposal c' = Some ofr))
     \<and> ((\<forall>k al. offer_get p k = Some al \<longrightarrow> agent al = 0 \<and> middle al = 0) \<longrightarrow> r = None)"
proof (cases "find (can_concede (core_game c) p) (candidates c)")
  case None
  have mc: "make_concession c = Inr (None, c)"
    using make_concession_find[OF assms] None by simp
  have no: "\<forall>cand \<in> set (candidates c). \<not> can_concede (core_game c) p cand"
    using None by (auto simp add: find_None_iff)
  show ?thesis
    apply (rule exI[of _ None], rule exI[of _ c])
    using mc no by simp
next
  case (Some cand)
  let ?ofr = "transfer p (fst cand)"
  let ?c' = "c\<lparr>current_proposal := Some ?ofr, concession_count := concession_count c + 1,
                offers_made := offers_made c + 1\<rparr>"
  have mc: "make_concession c = Inr (Some ?ofr, ?c')"
    using make_concession_find[OF assms] Some by (simp add: conceded_def)
  obtain pre post where sp: "candidates c = pre @ cand # post"
    "\<forall>x \<in> set pre. \<not> can_concede (core_game c) p x" "can_concede (core_game c) p cand"
    using find_Some_split[OF Some] by blast
  obtain al where al: "offer_get p (fst cand) = Some al"
    "agent al > 0 \<or> (snd cand \<and> middle al > 0)"
    using can_concede_allocation[OF sp(3)] by blast
  have tr: "?ofr = offer_set p (fst cand) (Some (one_unit_to_opponent al))"
    using al(1) by (simp add: transfer_def)
  have counts: "if agent al > 0
               then agent (one_unit_to_opponent al) = agent al - 1
                    \<and> middle (one_unit_to_opponent al) = middle al
               else snd cand \<and> middle al > 0
                    \<and> agent (one_unit_to_opponent al) = agent al
                    \<and> middle (one_unit_to_opponent al) = middle al - 1"
    using al(2) by (auto simp add: one_unit_to_opponent_def)
  have others: "\<forall>k. k \<noteq> fst cand \<longrightarrow> offer_get ?ofr k = offer_get p k"
    unfolding tr by (simp add: offer_get_offer_set)
  have ex: "\<exists>x \<in> set (candidates c). can_concede (core_game c) p x"
    using sp(1,3) by auto
  have notall: "\<not> (\<forall>k al. offer_get p k = Some al \<longrightarrow> agent al = 0 \<and> middle al = 0)"
    using nothing_left_no_candidate[of p "core_game c" cand] sp(3) by blast
  have body: "\<exists>pre cand post al.
             candidates c = pre @ cand # post
           \<and> (\<forall>x \<in> set pre. \<not> can_concede (core_game c) p x)
           \<and> can_concede (core_game c) p cand
           \<and> offer_get p (fst cand) = Some al
           \<and> ?ofr = offer_set p (fst cand) (Some (one_unit_to_opponent al))
           \<and> human (one_unit_to_opponent al) = human al + 1
           \<and> (if agent al > 0
               then agent (one_unit_to_opponent al) = agent al - 1
                    \<and> middle (one_unit_to_opponent al) = middle al
               else snd cand \<and> middle al > 0
                    \<and> agent (one_unit_to_opponent al) = agent al
                    \<and> middle (one_unit_to_opponent al) = middle al - 1)
           \<and> (\<forall>k. k \<noteq> fst cand \<longrightarrow> offer_get ?ofr k = offer_get p k)
           \<and> current_proposal ?c' = Some ?ofr"
    apply (rule exI[of _ pre], rule exI[of _ cand], rule exI[of _ post], rule exI[of _ al])
    using sp al(1) tr counts others one_unit_to_opponent_counts(1)[of al]
    by simp
  show ?thesis
    apply (rule exI[of _ "Some ?ofr"], rule exI[of _ ?c'])
    apply (intro conjI)
    subgoal by (rule mc)
    subgoal using ex by simp
    subgoal by simp
    subgoal using body by simp
    subgoal using notall by simp
    done
qed

lemma classic_get_issue:
  "get_issue classic_resource_game ''apples'' = Some (classic_issues ! 0)"
  "get_issue classic_resource_game ''oranges'' = Some (classic_issues ! 1)"
  "get_issue classic_resource_game ''bananas'' = Some (classic_issues ! 2)"
  by (simp_all add: get_issue_def classic_resource_game_def classic_issues_def)

lemma classic_candidates:
  "stacks c = stacks classic_core \<Longrightarrow>
   candidates c = [(''bananas'', True), (''oranges'', False), (''apples'', False)]"
  by (simp add: candidates_def classic_stacks)

lemma classic_step:
  assumes "current_proposal c = Some (Offer [(''apples'', Some x), (''oranges'', Some y), (''bananas'', Some z)])"
    "wf_offer (Offer [(''apples'', Some x), (''oranges'', Some y), (''bananas'', Some z)])"
    "stacks c = stacks classic_core" "core_game c = classic_resource_game"
  shows "make_concession c =
    Inr (if agent z > 0 \<or> middle z > 0
         then conceded c (Offer [(''apples'', Some x), (''oranges'', Some y),
                                 (''bananas'', Some (one_unit_to_opponent z))])
         else if agent y > 0
         then conceded c (Offer [(''apples'', Some x), (''oranges'', Some (one_unit_to_opponent y)),
                                 (''bananas'', Some z)])
         else if agent x > 0
         then conceded c (Offer [(''apples'', Some (one_unit_to_opponent x)), (''oranges'', Some y),
                                 (''bananas'', Some z)])
         else (None, c))"
  unfolding make_concession_find[OF assms(1,2)] classic_candidates[OF assms(3)] assms(4)
  by (simp add: can_concede_def classic_get_issue offer_get_def transfer_def offer_set_def)




lemma opened_core_fields:
  "current_proposal opened_core = Some classic_opening"
  "stacks opened_core = stacks classic_core"
  "core_game opened_core = classic_resource_game"
  "concession_count opened_core = 0" "offers_made opened_core = 1"
  by (simp_all add: opened_core_def classic_core_fields classic_core_def NegoChatCore_def)

lemma wf_classic_opening: "wf_offer classic_opening"
  by (simp add: wf_offer_def classic_opening_def)

lemma opened_first_concession:
  "make_concession opened_core =
     Inr (Some first_concession,
          opened_core\<lparr>current_proposal := Some first_concession, concession_count := 1,
            offers_made := 2\<rparr>)"
  using classic_step[of opened_core "\<lparr>agent = 4, middle = 0, human = 0\<rparr>"
      "\<lparr>agent = 1, middle = 1, human = 1\<rparr>" "\<lparr>agent = 1, middle = 0, human = 1\<rparr>"]
    opened_core_fields wf_classic_opening
  by (simp add: classic_opening_def first_concession_def conceded_def one_unit_to_opponent_def)





theorem make_concession_moves_one_unit_witness:
  "current_proposal opened_core = Some classic_opening
   \<and> wf_offer classic_opening
   \<and> candidates opened_core = [(''bananas'', True), (''oranges'', False), (''apples'', False)]
   \<and> make_concession opened_core =
       Inr (Some first_concession,
            opened_core\<lparr>current_proposal := Some first_concession, concession_count := 1,
              offers_made := 2\<rparr>)
   \<and> offer_get classic_opening ''bananas'' = Some \<lparr>agent = 1, middle = 0, human = 1\<rparr>
   \<and> offer_get first_concession ''bananas'' = Some \<lparr>agent = 0, middle = 0, human = 2\<rparr>
   \<and> offer_get first_concession ''apples'' = offer_get classic_opening ''apples''
   \<and> offer_get first_concession ''oranges'' = offer_get classic_opening ''oranges''"
proof -
  note T = make_concession_moves_one_unit[OF opened_core_fields(1) wf_classic_opening]
  from T obtain r c' where rc: "make_concession opened_core = Inr (r, c')"
    and others: "\<forall>ofr. r = Some ofr \<longrightarrow>
          (\<exists>pre cand post al.
             candidates opened_core = pre @ cand # post
           \<and> (\<forall>x \<in> set pre. \<not> can_concede (core_game opened_core) classic_opening x)
           \<and> can_concede (core_game opened_core) classic_opening cand
           \<and> offer_get classic_opening (fst cand) = Some al
           \<and> ofr = offer_set classic_opening (fst cand) (Some (one_unit_to_opponent al))
           \<and> human (one_unit_to_opponent al) = human al + 1
           \<and> (if agent al > 0
               then agent (one_unit_to_opponent al) = agent al - 1
                    \<and> middle (one_unit_to_opponent al) = middle al
               else snd cand \<and> middle al > 0
                    \<and> agent (one_unit_to_opponent al) = agent al
                    \<and> middle (one_unit_to_opponent al) = middle al - 1)
           \<and> (\<forall>k. k \<noteq> fst cand \<longrightarrow> offer_get ofr k = offer_get classic_opening k)
           \<and> current_proposal c' = Some ofr)"
    by blast
  have r: "r = Some first_concession" using rc opened_first_concession by simp
  have mc: "make_concession opened_core = Inr (Some first_concession, c')"
    using rc r by simp
  then have c': "c' = opened_core\<lparr>current_proposal := Some first_concession,
      concession_count := 1, offers_made := 2\<rparr>"
    using opened_first_concession by simp
  show ?thesis
    using mc c' wf_classic_opening opened_core_fields(1)
      classic_candidates[OF opened_core_fields(2)]
    by (simp add: classic_opening_def first_concession_def offer_get_def)
qed

subsection \<open>Concessions that stall or come in another order\<close>












section \<open>Delayed dispatch\<close>

lemma heappush_empty: "heappush [] x = Inr [x]"
  by (simp add: heappush_def siftdown_def siftdown_loop.simps)

lemma entry_lt_tie: "e1 \<noteq> e2 \<Longrightarrow> entry_lt (t, e2) (t, e1) = Inl TypeError"
  by (auto simp add: entry_lt_def)

lemma heappush_tie: "e1 \<noteq> e2 \<Longrightarrow> heappush [(t, e1)] (t, e2) = Inl TypeError"
  by (simp add: heappush_def siftdown_def siftdown_loop.simps entry_lt_tie Let_def)

lemma tied_events_differ: "tied_first \<noteq> tied_second"
proof
  assume "tied_first = tied_second"
  then have "event_id tied_first = event_id tied_second" by simp
  then show False by (simp add: tied_first_def tied_second_def formal_accept_def)
qed

lemma tied_events_fields:
  "delay_ms tied_first = 500" "delay_ms tied_second = 500"
  by (simp_all add: tied_first_def tied_second_def formal_accept_def)

text \<open>Without ties the queue works: three events with different fire times.\<close>

lemma three_events_fields:
  "delay_ms early_event = 300" "delay_ms late_event = 1000"
  "early_event \<noteq> late_event" "early_event \<noteq> tied_first" "late_event \<noteq> tied_first"
  by (auto simp add: early_event_def late_event_def tied_first_def formal_accept_def)

lemma distinct_times_enqueue:
  "publish_all EventBus [(10, tied_first), (10, late_event), (10, early_event)]
     = Inr ([], \<lparr>delayed_queue = [(103 / 10, early_event), (11, late_event), (21 / 2, tied_first)]\<rparr>)"
  by (simp add: publish_def queue_delayed_def tied_events_fields three_events_fields EventBus_def
      heappush_def siftdown_def siftdown_loop.simps entry_lt_def Let_def)

lemma distinct_times_dispatch_in_order:
  "process_delayed_events (106 / 10)
     \<lparr>delayed_queue = [(103 / 10, early_event), (11, late_event), (21 / 2, tied_first)]\<rparr>
   = Inr ([early_event, tied_first], \<lparr>delayed_queue = [(11, late_event)]\<rparr>)"
  by (simp add: process_delayed_events_def process_loop.simps heappop_def heappush_def
      siftup_def siftup_loop.simps siftdown_def siftdown_loop.simps entry_lt_def Let_def)

text \<open>Two events with equal fire times as children of an earlier one.\<close>

lemma sibling_tie_enqueue:
  "publish_all EventBus [(10, early_event), (10, tied_first), (10, tied_second)]
     = Inr ([], \<lparr>delayed_queue = [(103 / 10, early_event), (21 / 2, tied_first), (21 / 2, tied_second)]\<rparr>)"
  by (simp add: publish_def queue_delayed_def tied_events_fields three_events_fields EventBus_def
      heappush_def siftdown_def siftdown_loop.simps entry_lt_def Let_def)

lemma sibling_tie_dequeue:
  "process_delayed_events 11
     \<lparr>delayed_queue = [(103 / 10, early_event), (21 / 2, tied_first), (21 / 2, tied_second)]\<rparr>
   = Inl TypeError"
  using tied_events_differ
  by (simp add: process_delayed_events_def process_loop.simps heappop_def heappush_def
      siftup_def siftup_loop.simps siftdown_def siftdown_loop.simps entry_lt_def Let_def)

text \<open>
  Claim C9 says that delayed events with equal fire times are dispatched in insertion
  order and that dequeuing such a tie succeeds. Two different events published with
  the same delay at the same clock reading have equal fire times. Published one after
  the other into an empty queue, the second \<^verbatim>\<open>publish\<close> raises TypeError while it
  inserts its entry into the heap. Published after an earlier event, both are enqueued,
  and \<^verbatim>\<open>process_delayed_events\<close> raises TypeError while it takes the earlier event
  off the heap: nothing is dispatched.
\<close>

theorem tied_delayed_events_raise:
  "tied_first \<noteq> tied_second
   \<and> delay_ms tied_first = delay_ms tied_second
   \<and> publish 10 EventBus tied_first
        = Inr ([], \<lparr>delayed_queue = [(21 / 2, tied_first)]\<rparr>)
   \<and> publish 10 \<lparr>delayed_queue = [(21 / 2, tied_first)]\<rparr> tied_second = Inl TypeError
   \<and> publish_all EventBus [(10, tied_first), (10, tied_second)] = Inl TypeError
   \<and> publish_all EventBus [(10, early_event), (10, tied_first), (10, tied_second)]
        = Inr ([], \<lparr>delayed_queue =
            [(103 / 10, early_event), (21 / 2, tied_first), (21 / 2, tied_second)]\<rparr>)
   \<and> process_delayed_events 11
        \<lparr>delayed_queue = [(103 / 10, early_event), (21 / 2, tied_first), (21 / 2, tied_second)]\<rparr>
        = Inl TypeError"
proof -
  have p1: "publish 10 EventBus tied_first = Inr ([], \<lparr>delayed_queue = [(21 / 2, tied_first)]\<rparr>)"
    by (simp add: publish_def queue_delayed_def tied_events_fields EventBus_def heappush_empty)
  have p2: "publish 10 \<lparr>delayed_queue = [(21 / 2, tied_first)]\<rparr> tied_second = Inl TypeError"
    using heappush_tie[OF tied_events_differ, of "21 / 2"]
    by (simp add: publish_def queue_delayed_def tied_events_fields)
  have p3: "publish_all EventBus [(10, tied_first), (10, tied_second)] = Inl TypeError"
    using p1 p2 by simp
  show ?thesis
    using p1 p2 p3 tied_events_differ sibling_tie_enqueue sibling_tie_dequeue
    by (simp add: tied_events_fields)
qed

end
